theory Spec2Isabelle
  imports Main
begin

section \<open>JavaScript strings and values\<close>

text \<open>
  A JavaScript string is a sequence of UTF-16 code units; a code unit is modelled by its
  number.  \<open>lit\<close> turns an ASCII literal into such a sequence.
\<close>

type_synonym jsstring = "nat list"

definition lit :: "string \<Rightarrow> jsstring" where
  "lit s = map of_char s"

text \<open>
  The code units that \<^verbatim>\<open>String.prototype.trim\<close> strips and that the regular expression
  class \<^verbatim>\<open>\s\<close> matches: the ECMAScript white space and line terminator code points.
\<close>

definition isWhiteSpace :: "nat \<Rightarrow> bool" where
  "isWhiteSpace c \<longleftrightarrow>
     c \<in> set [0x09, 0x0A, 0x0B, 0x0C, 0x0D, 0x20, 0xA0, 0x1680, 0x2028, 0x2029,
               0x202F, 0x205F, 0x3000, 0xFEFF]
     \<or> (0x2000 \<le> c \<and> c \<le> 0x200A)"

text \<open>\<^verbatim>\<open>text.startsWith(p)\<close>\<close>

definition startsWith :: "jsstring \<Rightarrow> jsstring \<Rightarrow> bool" where
  "startsWith text p \<longleftrightarrow> take (length p) text = p"

text \<open>\<^verbatim>\<open>text.slice(n)\<close> for a start index \<open>n \<ge> 0\<close>\<close>

definition slice_from :: "jsstring \<Rightarrow> nat \<Rightarrow> jsstring" where
  "slice_from text n = drop n text"

text \<open>\<^verbatim>\<open>s.trim()\<close>\<close>

definition trim :: "jsstring \<Rightarrow> jsstring" where
  "trim s = rev (dropWhile isWhiteSpace (rev (dropWhile isWhiteSpace s)))"

text \<open>
  \<^verbatim>\<open>s.split(/\s+/)\<close>: the string is cut at every maximal run of white space; a run at
  the very start or end leaves an empty piece there, and a string without white space
  (also the empty one) is returned as the only piece.  \<open>cur\<close> is the piece being read.
\<close>

function split_ws_from :: "jsstring \<Rightarrow> jsstring \<Rightarrow> jsstring list" where
  "split_ws_from cur [] = [cur]"
| "split_ws_from cur (c # cs) =
     (if isWhiteSpace c then cur # split_ws_from [] (dropWhile isWhiteSpace cs)
      else split_ws_from (cur @ [c]) cs)"
  by pat_completeness auto
termination
  by (relation "measure (\<lambda>(cur, s). length s)")
     (auto simp: less_Suc_eq_le length_dropWhile_le)

definition split_ws :: "jsstring \<Rightarrow> jsstring list" where
  "split_ws s = split_ws_from [] s"

text \<open>
  The JavaScript values that cross the interfaces modelled here (handler results, thrown
  values, opaque payload fields).  \<open>JError m\<close> is an \<^verbatim>\<open>Error\<close> object with message \<open>m\<close>,
  \<open>JTypeError m\<close> a \<^verbatim>\<open>TypeError\<close> object with message \<open>m\<close>.
\<close>

datatype jsval =
    JUndefined
  | JNull
  | JBool bool
  | JNum int
  | JStr jsstring
  | JError jsstring
  | JTypeError jsstring

text \<open>
  How a call (or an awaited promise) completes: with a value, or by throwing (rejecting
  with) a value.
\<close>

datatype 'a completion = Returns 'a | Throws jsval


section \<open>Message processor: command parsing\<close>

text \<open>The object \<^verbatim>\<open>{ command, args, prefix }\<close> returned by \<^verbatim>\<open>parseCommand\<close>.\<close>

record command_info =
  command :: jsstring
  args :: "jsstring list"
  prefix :: jsstring

text \<open>
  \<^verbatim>\<open>MessageProcessor.parseCommand(text)\<close>, with \<^verbatim>\<open>this.commandPrefix\<close> as first
  argument; \<open>None\<close> is the result \<^verbatim>\<open>null\<close>.  The loop over the prefixes stops at the first
  one the text starts with (\<open>find\<close>).  The test \<^verbatim>\<open>if (!prefix) return null\<close> that follows
  is a truthiness test: it holds when no prefix matched (\<^verbatim>\<open>prefix\<close> is still \<^verbatim>\<open>null\<close>)
  and also when the matching prefix is the empty string.  \<^verbatim>\<open>parts[0]\<close> and
  \<^verbatim>\<open>parts.slice(1)\<close> are \<open>hd\<close> and \<open>tl\<close>: \<open>split_ws\<close> never returns the empty list
  (lemma \<open>split_ws_not_Nil\<close>).
\<close>

definition parseCommand :: "jsstring list \<Rightarrow> jsstring \<Rightarrow> command_info option" where
  "parseCommand commandPrefix text =
     (if text = [] then None
      else case find (startsWith text) commandPrefix of
             None \<Rightarrow> None
           | Some p \<Rightarrow>
               if p = [] then None
               else let commandText = trim (slice_from text (length p)) in
                 if commandText = [] then None
                 else let parts = split_ws commandText in
                   Some \<lparr>command = hd parts, args = tl parts, prefix = p\<rparr>)"


section \<open>Plugin manager: registry, identities, load and unload\<close>

text \<open>
  The JavaScript \<^verbatim>\<open>Map\<close> that holds the registry iterates in insertion order, so it is
  an association list: \<^verbatim>\<open>set\<close> on a key already present replaces the value where it
  stands, \<^verbatim>\<open>set\<close> on a new key appends, \<^verbatim>\<open>delete\<close> removes the entry.
\<close>

definition jsmap_has :: "('k \<times> 'v) list \<Rightarrow> 'k \<Rightarrow> bool" where
  "jsmap_has m k \<longleftrightarrow> map_of m k \<noteq> None"

definition jsmap_get :: "('k \<times> 'v) list \<Rightarrow> 'k \<Rightarrow> 'v option" where
  "jsmap_get m k = map_of m k"

fun jsmap_set :: "'k \<Rightarrow> 'v \<Rightarrow> ('k \<times> 'v) list \<Rightarrow> ('k \<times> 'v) list" where
  "jsmap_set k v [] = [(k, v)]"
| "jsmap_set k v ((k', v') # m) =
     (if k' = k then (k, v) # m else (k', v') # jsmap_set k v m)"

definition jsmap_delete :: "'k \<Rightarrow> ('k \<times> 'v) list \<Rightarrow> ('k \<times> 'v) list" where
  "jsmap_delete k m = filter (\<lambda>e. fst e \<noteq> k) m"

text \<open>
  \<^verbatim>\<open>PluginManager.getPluginId(filePath)\<close>.  Node's \<^verbatim>\<open>path.relative\<close> is a parameter.
  \<^verbatim>\<open>.replace(/\\/g, '/')\<close> turns every backslash into a slash;
  \<^verbatim>\<open>.replace(/\.js$/, '')\<close> removes the three code units \<^verbatim>\<open>.js\<close> when the string
  ends with them, and nothing otherwise.
\<close>

definition endsWith :: "jsstring \<Rightarrow> jsstring \<Rightarrow> bool" where
  "endsWith s suffix \<longleftrightarrow>
     length suffix \<le> length s \<and> drop (length s - length suffix) s = suffix"

definition replace_backslashes :: "jsstring \<Rightarrow> jsstring" where
  "replace_backslashes s = map (\<lambda>c. if c = 0x5C then 0x2F else c) s"

definition remove_js_suffix :: "jsstring \<Rightarrow> jsstring" where
  "remove_js_suffix s = (if endsWith s (lit ''.js'') then take (length s - 3) s else s)"

definition getPluginId :: "(jsstring \<Rightarrow> jsstring \<Rightarrow> jsstring) \<Rightarrow> jsstring \<Rightarrow> jsstring \<Rightarrow> jsstring" where
  "getPluginId relative pluginDir filePath =
     remove_js_suffix (replace_backslashes (relative pluginDir filePath))"

text \<open>
  The extension test of the hot-reload watcher
  (\<^verbatim>\<open>endsWith('.js') || endsWith('.mjs')\<close>), which the pattern \<^verbatim>\<open>*.{js,mjs}\<close> of
  \<^verbatim>\<open>findPluginFiles\<close> applies as well.  That hidden paths and \<^verbatim>\<open>node_modules\<close> are
  skipped is left out.
\<close>

definition is_plugin_file :: "jsstring \<Rightarrow> bool" where
  "is_plugin_file filePath \<longleftrightarrow> endsWith filePath (lit ''.js'') \<or> endsWith filePath (lit ''.mjs'')"

text \<open>
  The context object built for one inbound message (\<^verbatim>\<open>createContext\<close>).  The fields
  \<^verbatim>\<open>message\<close>, \<^verbatim>\<open>sender\<close>, \<^verbatim>\<open>time\<close>, \<^verbatim>\<open>command\<close> and \<^verbatim>\<open>args\<close> carry the prefix \<open>ctx_\<close>
  here; \<^verbatim>\<open>bot\<close> is left out.  \<open>reply\<close> is the closure \<^verbatim>\<open>reply(content)\<close>: it maps the
  content to the send call the closure makes.
\<close>

datatype segment_data = SegmentData (data_text: jsstring) (data_id: jsstring)

datatype segment = Segment (seg_type: jsstring) (seg_data: segment_data)

datatype message_body = MessageString jsstring | MessageArray "segment list"

datatype send_call =
    SendPrivateMsg jsval jsstring
  | SendGroupMsg jsval jsstring

record message_context =
  messageId :: jsval
  userId :: jsval
  groupId :: jsval
  messageType :: jsstring
  ctx_message :: jsstring
  rawMessage :: jsval
  messageArray :: message_body
  ctx_sender :: jsval
  ctx_time :: int
  isPrivate :: bool
  isGroup :: bool
  isCommand :: bool
  ctx_command :: "jsstring option"
  ctx_args :: "jsstring list"
  reply :: "jsstring \<Rightarrow> send_call"

text \<open>
  The adapted plugin object the manager works on.  A property that is not a function
  (\<^verbatim>\<open>typeof \<dots> !== 'function'\<close>) is \<open>None\<close>; a function is given by how its awaited call
  completes: the value it returns (or its promise resolves to), or the value it throws
  (or its promise rejects with).  A handler is a black box otherwise: it is taken not to
  write to the context it is given nor to the registry.
\<close>

record plugin_instance =
  onMessage :: "(message_context \<Rightarrow> jsval completion) option"
  onCommand :: "(message_context \<Rightarrow> jsval completion) option"
  onUnload :: "jsval completion option"

text \<open>The record \<^verbatim>\<open>{ id, path, instance, module, loadedAt }\<close> stored per plugin.\<close>

record plugin_info =
  info_id :: jsstring
  info_path :: jsstring
  info_instance :: plugin_instance
  info_module :: jsval
  info_loadedAt :: nat

type_synonym registry = "(jsstring \<times> plugin_info) list"

text \<open>
  What the manager and the message processor do that can be observed from outside, in
  the order they do it: handler calls, log lines, emitted notifications, send calls.
  The logger and the listeners of the notifications are taken to return normally.
\<close>

datatype handler = OnMessage | OnCommand | OnUnload

datatype effect =
    Invoke jsstring handler
  | LogLoaded jsstring jsstring
  | LogLoadFailed jsstring jsval
  | LogUnloaded jsstring
  | LogUnloadFailed jsstring jsval
  | LogHandlerError jsstring jsval
  | LogReplyFailed jsval
  | EmitPluginLoaded jsstring
  | EmitPluginUnloaded jsstring
  | EmitMessage
  | EmitCommand
  | Send send_call

text \<open>
  \<^verbatim>\<open>PluginManager.unloadPlugin(pluginId)\<close>: the value returned, the registry afterwards
  and the effects.  The whole body stands in one \<^verbatim>\<open>try\<close>: when \<^verbatim>\<open>onUnload\<close> throws,
  control goes to the \<^verbatim>\<open>catch\<close>, which logs and returns \<^verbatim>\<open>false\<close>; the
  \<^verbatim>\<open>this.plugins.delete(pluginId)\<close> after the call is not reached.  (After
  \<^verbatim>\<open>has\<close> has answered \<^verbatim>\<open>true\<close>, \<^verbatim>\<open>get\<close> gives a record: the case \<open>None\<close> of the lookup
  cannot occur.)
\<close>

definition unloadPlugin :: "jsstring \<Rightarrow> registry \<Rightarrow> bool \<times> registry \<times> effect list" where
  "unloadPlugin pluginId plugins =
     (if \<not> jsmap_has plugins pluginId then (False, plugins, [])
      else case jsmap_get plugins pluginId of
        None \<Rightarrow> (False, plugins, [])
      | Some pluginInfo \<Rightarrow>
          (case onUnload (info_instance pluginInfo) of
             Some (Throws e) \<Rightarrow>
               (False, plugins, [Invoke pluginId OnUnload, LogUnloadFailed pluginId e])
           | Some (Returns v) \<Rightarrow>
               (True, jsmap_delete pluginId plugins,
                [Invoke pluginId OnUnload, LogUnloaded pluginId, EmitPluginUnloaded pluginId])
           | None \<Rightarrow>
               (True, jsmap_delete pluginId plugins,
                [LogUnloaded pluginId, EmitPluginUnloaded pluginId])))"

text \<open>
  \<^verbatim>\<open>PluginManager.loadPlugin(filePath)\<close>.  \<open>loaded\<close> is how
  \<^verbatim>\<open>loader.loadPluginModule\<close> followed by \<^verbatim>\<open>sandbox.initializePlugin\<close> completes for the
  file (the module and the adapted plugin, or the value thrown), \<open>now\<close> is the clock read
  by \<^verbatim>\<open>new Date()\<close>.  The result of the awaited \<^verbatim>\<open>unloadPlugin\<close> is not looked at.
\<close>

definition loadPlugin ::
  "(jsstring \<Rightarrow> jsstring \<Rightarrow> jsstring) \<Rightarrow> jsstring \<Rightarrow> jsstring \<Rightarrow>
   (jsval \<times> plugin_instance) completion \<Rightarrow> nat \<Rightarrow> registry \<Rightarrow> bool \<times> registry \<times> effect list" where
  "loadPlugin relative pluginDir filePath loaded now plugins =
     (let pluginId = getPluginId relative pluginDir filePath;
          unloaded = (if jsmap_has plugins pluginId then unloadPlugin pluginId plugins
                      else (False, plugins, []));
          plugins1 = fst (snd unloaded);
          tr1 = snd (snd unloaded)
      in case loaded of
           Throws e \<Rightarrow> (False, plugins1, tr1 @ [LogLoadFailed filePath e])
         | Returns (pluginModule, plugin) \<Rightarrow>
             (True,
              jsmap_set pluginId
                \<lparr>info_id = pluginId, info_path = filePath, info_instance = plugin,
                 info_module = pluginModule, info_loadedAt = now\<rparr> plugins1,
              tr1 @ [LogLoaded pluginId filePath, EmitPluginLoaded pluginId]))"


section \<open>Plugin manager: message dispatch\<close>

text \<open>
  The body of the \<^verbatim>\<open>try\<close> block of \<^verbatim>\<open>handleMessage\<close> for one registry entry: the
  handler calls it makes and how it completes, normally (leaving the loop by \<^verbatim>\<open>break\<close>
  with \<^verbatim>\<open>handled = true\<close>, or going on) or by the value a handler threw.
\<close>

datatype iteration = Break | Continue

definition onCommand_part ::
  "message_context \<Rightarrow> jsstring \<Rightarrow> plugin_info \<Rightarrow> effect list \<times> iteration completion" where
  "onCommand_part context pluginId pluginInfo =
     (if isCommand context then
        (case onCommand (info_instance pluginInfo) of
           None \<Rightarrow> ([], Returns Continue)
         | Some f \<Rightarrow>
             (case f context of
                Throws e \<Rightarrow> ([Invoke pluginId OnCommand], Throws e)
              | Returns result \<Rightarrow>
                  ([Invoke pluginId OnCommand],
                   Returns (if result = JBool True then Break else Continue))))
      else ([], Returns Continue))"

definition dispatch_body ::
  "message_context \<Rightarrow> jsstring \<Rightarrow> plugin_info \<Rightarrow> effect list \<times> iteration completion" where
  "dispatch_body context pluginId pluginInfo =
     (case onMessage (info_instance pluginInfo) of
        None \<Rightarrow> onCommand_part context pluginId pluginInfo
      | Some f \<Rightarrow>
          (case f context of
             Throws e \<Rightarrow> ([Invoke pluginId OnMessage], Throws e)
           | Returns result \<Rightarrow>
               if result = JBool True then ([Invoke pluginId OnMessage], Returns Break)
               else (case onCommand_part context pluginId pluginInfo of
                       (tr, c) \<Rightarrow> (Invoke pluginId OnMessage # tr, c))))"

text \<open>
  \<^verbatim>\<open>PluginManager.handleMessage(context)\<close>: the loop over the registry in its iteration
  order, with the \<^verbatim>\<open>catch\<close> that logs the plugin's id and goes on to the next entry.
  The result is the value of \<^verbatim>\<open>handled\<close> and the effects.
\<close>

fun handleMessage :: "message_context \<Rightarrow> registry \<Rightarrow> bool \<times> effect list" where
  "handleMessage context [] = (False, [])"
| "handleMessage context ((pluginId, pluginInfo) # plugins) =
     (case dispatch_body context pluginId pluginInfo of
        (tr, Returns Break) \<Rightarrow> (True, tr)
      | (tr, Returns Continue) \<Rightarrow>
          (case handleMessage context plugins of (handled, tr') \<Rightarrow> (handled, tr @ tr'))
      | (tr, Throws e) \<Rightarrow>
          (case handleMessage context plugins of
             (handled, tr') \<Rightarrow> (handled, tr @ LogHandlerError pluginId e # tr')))"


text \<open>
  Two notions for stating what a dispatch pass does.  An entry \<^emph>\<open>claims\<close> the message when
  its pass through the loop body ends in the \<^verbatim>\<open>break\<close>.  \<open>plugin_effects\<close> are the effects
  of one pass through the loop body for an entry, the log line of the \<^verbatim>\<open>catch\<close> included.
\<close>

definition claims :: "message_context \<Rightarrow> jsstring \<times> plugin_info \<Rightarrow> bool" where
  "claims context entry \<longleftrightarrow>
     snd (dispatch_body context (fst entry) (snd entry)) = Returns Break"

definition plugin_effects :: "message_context \<Rightarrow> jsstring \<times> plugin_info \<Rightarrow> effect list" where
  "plugin_effects context entry =
     fst (dispatch_body context (fst entry) (snd entry))
     @ (case snd (dispatch_body context (fst entry) (snd entry)) of
          Throws e \<Rightarrow> [LogHandlerError (fst entry) e]
        | Returns s \<Rightarrow> [])"


text \<open>Plugins for concrete instances: every handler is a function with a fixed completion.\<close>

definition example_instance ::
  "jsval completion \<Rightarrow> jsval completion \<Rightarrow> jsval completion \<Rightarrow> plugin_instance" where
  "example_instance m c u =
     \<lparr>onMessage = Some (\<lambda>context. m), onCommand = Some (\<lambda>context. c), onUnload = Some u\<rparr>"

definition example_info :: "jsstring \<Rightarrow> plugin_instance \<Rightarrow> plugin_info" where
  "example_info pluginId plugin =
     \<lparr>info_id = pluginId, info_path = pluginId @ lit ''.js'', info_instance = plugin,
      info_module = JNull, info_loadedAt = 0\<rparr>"


section \<open>Message processor: contexts and the unknown-command reply\<close>

text \<open>The inbound message event, with the fields \<^verbatim>\<open>createContext\<close> reads.\<close>

record inbound_message =
  message_id :: jsval
  user_id :: jsval
  group_id :: jsval
  message_type :: jsstring
  message :: message_body
  raw_message :: jsval
  sender :: jsval
  time :: int

text \<open>
  \<^verbatim>\<open>extractText\<close>: a string is taken as it is; of an array, every segment gives its text,
  or a placeholder in brackets (the words for image and for face are Chinese in the
  source), joined without separator.  \<^verbatim>\<open>data.text\<close> and \<^verbatim>\<open>data.id\<close> of a segment are
  strings here (\<^verbatim>\<open>data.id\<close> as the template literal prints it).
\<close>

definition segment_text :: "segment \<Rightarrow> jsstring" where
  "segment_text item =
     (if seg_type item = lit ''text'' then data_text (seg_data item)
      else if seg_type item = lit ''image'' then [0x5B, 0x56FE, 0x7247, 0x5D]
      else if seg_type item = lit ''face''
        then [0x5B, 0x8868, 0x60C5, 0x3A] @ data_id (seg_data item) @ [0x5D]
      else [0x5B] @ seg_type item @ [0x5D])"

definition extractText :: "inbound_message \<Rightarrow> jsstring" where
  "extractText m =
     (case message m of
        MessageString s \<Rightarrow> s
      | MessageArray items \<Rightarrow> concat (map segment_text items))"

definition createContext :: "inbound_message \<Rightarrow> message_context" where
  "createContext m =
     (let private = (message_type m = lit ''private'');
          group = (message_type m = lit ''group'')
      in \<lparr>messageId = message_id m,
          userId = user_id m,
          groupId = (if group then group_id m else JNull),
          messageType = message_type m,
          ctx_message = extractText m,
          rawMessage = raw_message m,
          messageArray = message m,
          ctx_sender = sender m,
          ctx_time = time m * 1000,
          isPrivate = private,
          isGroup = group,
          isCommand = False,
          ctx_command = None,
          ctx_args = [],
          reply = (\<lambda>content. if private then SendPrivateMsg (user_id m) content
                              else SendGroupMsg (group_id m) content)\<rparr>)"

text \<open>
  The text of the unknown-command notice: the template literal of
  \<^verbatim>\<open>replyUnknownCommand\<close> (Chinese in the source: "unknown command: ", the command, a
  line feed, and the hint to ask for help), with \<^verbatim>\<open>null\<close> printed as such.
\<close>

definition unknownCommandText :: "jsstring option \<Rightarrow> jsstring" where
  "unknownCommandText cmd =
     [0x672A, 0x77E5, 0x547D, 0x4EE4, 0x3A, 0x20]
     @ (case cmd of None \<Rightarrow> lit ''null'' | Some c \<Rightarrow> c)
     @ [0x0A, 0x8BF7, 0x8F93, 0x5165, 0x20, 0x22, 0x23, 0x5E2E, 0x52A9, 0x22, 0x20,
        0x67E5, 0x770B, 0x53EF, 0x7528, 0x547D, 0x4EE4]"

text \<open>
  \<^verbatim>\<open>replyUnknownCommand(context)\<close>.  \<open>replyResult\<close> is how the awaited
  \<^verbatim>\<open>context.reply(\<dots>)\<close> completes; the \<^verbatim>\<open>catch\<close> logs what it threw.
\<close>

definition replyUnknownCommand ::
  "jsval completion \<Rightarrow> message_context \<Rightarrow> effect list \<times> unit completion" where
  "replyUnknownCommand replyResult context =
     (let call = Send (reply context (unknownCommandText (ctx_command context)))
      in case replyResult of
           Returns v \<Rightarrow> ([call], Returns ())
         | Throws e \<Rightarrow> ([call, LogReplyFailed e], Returns ()))"

text \<open>
  The part of \<^verbatim>\<open>process\<close> that fills in the command fields of the context: when
  \<^verbatim>\<open>parseCommand\<close> gives a result, \<^verbatim>\<open>command\<close>, \<^verbatim>\<open>args\<close> and \<^verbatim>\<open>isCommand\<close> are set.
\<close>

definition classify :: "jsstring list \<Rightarrow> message_context \<Rightarrow> message_context" where
  "classify commandPrefix context =
     (case parseCommand commandPrefix (ctx_message context) of
        None \<Rightarrow> context
      | Some commandInfo \<Rightarrow>
          context\<lparr>ctx_command := Some (command commandInfo), ctx_args := args commandInfo,
                  isCommand := True\<rparr>)"

text \<open>
  \<^verbatim>\<open>MessageProcessor.process(message)\<close>, with the prefix list, the registry of the
  plugin manager and the completion of the reply as arguments.  The global
  \<^verbatim>\<open>message\<close> event is emitted first, the \<^verbatim>\<open>command\<close> event when the text parsed as a
  command; then the plugins are dispatched to, and the notice is sent when
  \<^verbatim>\<open>!handled && context.isCommand\<close>.
\<close>

definition process ::
  "jsstring list \<Rightarrow> registry \<Rightarrow> jsval completion \<Rightarrow> inbound_message \<Rightarrow>
   effect list \<times> unit completion" where
  "process commandPrefix plugins replyResult m =
     (let context0 = createContext m;
          context = classify commandPrefix context0;
          tr0 = EmitMessage #
                (case parseCommand commandPrefix (ctx_message context0) of
                   None \<Rightarrow> []
                 | Some commandInfo \<Rightarrow> [EmitCommand]);
          dispatched = handleMessage context plugins;
          handled = fst dispatched
      in if \<not> handled \<and> isCommand context then
           (case replyUnknownCommand replyResult context of
              (tr, c) \<Rightarrow> (tr0 @ snd dispatched @ tr, c))
         else (tr0 @ snd dispatched, Returns ()))"


text \<open>
  For concrete instances, \<^verbatim>\<open>path.relative\<close> on a file path that is the root, a separator
  and the path below the root: it returns the path below the root.
\<close>

definition relative_below :: "jsstring \<Rightarrow> jsstring \<Rightarrow> jsstring" where
  "relative_below root filePath = drop (length root + 1) filePath"

text \<open>The send calls among the effects, and a message for concrete instances.\<close>

definition is_send :: "effect \<Rightarrow> bool" where
  "is_send x = (case x of Send c \<Rightarrow> True | _ \<Rightarrow> False)"

definition example_message :: "jsstring \<Rightarrow> jsstring \<Rightarrow> inbound_message" where
  "example_message kind text =
     \<lparr>message_id = JNum 7, user_id = JNum 2, group_id = JNum 1, message_type = kind,
      message = MessageString text, raw_message = JStr text, sender = JNull,
      time = 1700000000\<rparr>"


section \<open>Protocol adapter\<close>

text \<open>
  The fields of \<^verbatim>\<open>this.config\<close> the adapter reads for its timers; \<open>None\<close> is an option
  left out.  A value that is left out or \<^verbatim>\<open>0\<close> is falsy and gives the default.
\<close>

record adapter_config =
  timeout :: "nat option"
  reconnectDelay :: "nat option"

definition timeout_ms :: "adapter_config \<Rightarrow> nat" where
  "timeout_ms config = (case timeout config of None \<Rightarrow> 30000 | Some t \<Rightarrow> if t = 0 then 30000 else t)"

definition reconnect_ms :: "adapter_config \<Rightarrow> nat" where
  "reconnect_ms config =
     (case reconnectDelay config of None \<Rightarrow> 5000 | Some t \<Rightarrow> if t = 0 then 5000 else t)"

text \<open>
  The value stored in \<^verbatim>\<open>pendingRequests\<close> under an echo: the \<^verbatim>\<open>resolve\<close> and \<^verbatim>\<open>reject\<close>
  functions of the promise that \<^verbatim>\<open>send\<close> made when it drew that echo.  The promise is
  named by the echo drawn for it (calls that draw the same echo, at the limit of the
  counter, are not told apart by this name).
\<close>

datatype callbacks = Callbacks nat

text \<open>
  The value stored in \<^verbatim>\<open>echoCounter\<close> is a JavaScript number, a double, that starts at
  \<^verbatim>\<open>0\<close> and is only ever changed by \<^verbatim>\<open>echoCounter++\<close>.  Up to \<open>2\<^sup>5\<^sup>3\<close> every natural number
  is a double and the increment is exact; at \<open>2\<^sup>5\<^sup>3\<close> the sum \<open>2\<^sup>5\<^sup>3 + 1\<close> is not a double
  and is rounded back to \<open>2\<^sup>5\<^sup>3\<close>, so the increment leaves the value as it is.  The
  counter never holds another value (\<open>run_counter_bounded\<close>).
\<close>

definition counter_limit :: nat where
  "counter_limit = 2 ^ 53"

definition js_increment :: "nat \<Rightarrow> nat" where
  "js_increment n = (if n < counter_limit then n + 1 else n)"

text \<open>
  The adapter object: \<open>ws\<close> tells whether \<^verbatim>\<open>this.ws\<close> holds a socket (or is \<^verbatim>\<open>null\<close>).
\<close>

record adapter =
  ws :: bool
  connected :: bool
  echoCounter :: nat
  pendingRequests :: "nat \<rightharpoonup> callbacks"

definition new_adapter :: adapter where
  "new_adapter = \<lparr>ws = False, connected = False, echoCounter = 0, pendingRequests = Map.empty\<rparr>"

text \<open>
  An inbound frame after \<^verbatim>\<open>JSON.parse\<close>: text that does not parse, the value \<^verbatim>\<open>null\<close>
  (reading a property of it throws), or a value whose properties can be read; a property
  that is absent reads as \<^verbatim>\<open>undefined\<close>.  \<open>msg\<close> is a string when present.
\<close>

record payload =
  echo :: jsval
  status :: jsval
  data :: jsval
  msg :: "jsstring option"
  post_type :: jsval
  meta_event_type :: jsval
  sub_type :: jsval
  self_id :: jsval

datatype frame = Unparsable | ParsedNull | Parsed payload

datatype timer = RequestTimeout nat jsstring | Reconnect

datatype send_result = Refused jsval | Call nat

text \<open>
  What the adapter does that can be observed: settling the promise of a call (named by
  its echo), the promise \<^verbatim>\<open>send\<close> returns, frames written to the socket, timers set,
  events emitted, log lines, sockets opened and closed.
\<close>

datatype adapter_effect =
    Resolved callbacks jsval
  | Rejected callbacks jsval
  | SendReturns send_result
  | WsSend jsstring jsval nat
  | SetTimeout timer nat
  | EmitMessageEvent payload
  | EmitSelfId jsval
  | EmitEvent payload
  | LogFrameError
  | LogSocketError
  | LogReconnectFailed
  | NewWebSocket
  | WsCloseCall
  | ConnectResolved
  | ConnectRejected

text \<open>
  The messages of the errors made by the adapter (Chinese in the source): "adapter not
  connected", "API call timed out: " and the action, "API call failed: " and the
  gateway's message or "unknown error".
\<close>

definition notConnectedError :: jsval where
  "notConnectedError = JError [0x9002, 0x914D, 0x5668, 0x672A, 0x8FDE, 0x63A5]"

definition timeoutError :: "jsstring \<Rightarrow> jsval" where
  "timeoutError action =
     JError ([0x41, 0x50, 0x49, 0x8C03, 0x7528, 0x8D85, 0x65F6, 0x3A, 0x20] @ action)"

definition remoteError :: "jsstring option \<Rightarrow> jsval" where
  "remoteError m =
     JError ([0x41, 0x50, 0x49, 0x8C03, 0x7528, 0x5931, 0x8D25, 0x3A, 0x20]
             @ (case m of
                  None \<Rightarrow> [0x672A, 0x77E5, 0x9519, 0x8BEF]
                | Some t \<Rightarrow> if t = [] then [0x672A, 0x77E5, 0x9519, 0x8BEF] else t))"

text \<open>
  \<^verbatim>\<open>Adapter.send(action, params)\<close>.  \<open>sendThrows\<close> is the value that
  \<^verbatim>\<open>this.ws.send(JSON.stringify(payload))\<close> throws, \<open>None\<close> when it returns; on a \<^verbatim>\<open>null\<close>
  socket reading \<^verbatim>\<open>this.ws.send\<close> throws the \<^verbatim>\<open>TypeError\<close> of the engine (with the
  message of current Node versions here).  The timer is set only after the frame is
  written.
\<close>

definition nullSocketError :: jsval where
  "nullSocketError =
     JTypeError (lit ''Cannot read properties of null (reading '' @ [0x27] @ lit ''send''
                 @ [0x27] @ lit '')'')"

definition send ::
  "adapter_config \<Rightarrow> jsstring \<Rightarrow> jsval \<Rightarrow> jsval option \<Rightarrow> adapter \<Rightarrow>
   send_result \<times> adapter \<times> adapter_effect list" where
  "send config action params sendThrows s =
     (if \<not> connected s then (Refused notConnectedError, s, [])
      else
        let echoId = echoCounter s;
            s1 = s\<lparr>echoCounter := js_increment echoId,
                   pendingRequests := (pendingRequests s)(echoId \<mapsto> Callbacks echoId)\<rparr>
        in case (if ws s then sendThrows else Some nullSocketError) of
             None \<Rightarrow>
               (Call echoId, s1,
                [WsSend action params echoId, SetTimeout (RequestTimeout echoId action) (timeout_ms config)])
           | Some error \<Rightarrow>
               (Call echoId,
                s1\<lparr>pendingRequests := (pendingRequests s1)(echoId := None)\<rparr>,
                [Rejected (Callbacks echoId) error]))"

text \<open>
  The callback of the timer set by \<^verbatim>\<open>send\<close> for the call with this echo and action.
\<close>

definition requestTimeout :: "nat \<Rightarrow> jsstring \<Rightarrow> adapter \<Rightarrow> adapter \<times> adapter_effect list" where
  "requestTimeout echoId action s =
     (if pendingRequests s echoId \<noteq> None
      then (s\<lparr>pendingRequests := (pendingRequests s)(echoId := None)\<rparr>,
            [Rejected (Callbacks echoId) (timeoutError action)])
      else (s, []))"

text \<open>
  The key of \<^verbatim>\<open>pendingRequests\<close> that \<^verbatim>\<open>payload.echo\<close> is equal to, if any: the keys are
  the numbers drawn from the counter.
\<close>

definition echo_key :: "jsval \<Rightarrow> nat option" where
  "echo_key v = (case v of JNum n \<Rightarrow> if 0 \<le> n then Some (nat n) else None | _ \<Rightarrow> None)"

text \<open>
  \<^verbatim>\<open>Adapter.handleWebSocketMessage(data)\<close>, on the parsed frame.  The whole body stands
  in a \<^verbatim>\<open>try\<close> whose \<^verbatim>\<open>catch\<close> logs.
\<close>

definition handleWebSocketMessage :: "frame \<Rightarrow> adapter \<Rightarrow> adapter \<times> adapter_effect list" where
  "handleWebSocketMessage f s =
     (case f of
        Unparsable \<Rightarrow> (s, [LogFrameError])
      | ParsedNull \<Rightarrow> (s, [LogFrameError])
      | Parsed payload \<Rightarrow>
          if echo payload \<noteq> JUndefined then
            (case echo_key (echo payload) of
               None \<Rightarrow> (s, [])
             | Some k \<Rightarrow>
                 (case pendingRequests s k of
                    None \<Rightarrow> (s, [])
                  | Some pending \<Rightarrow>
                      (s\<lparr>pendingRequests := (pendingRequests s)(k := None)\<rparr>,
                       [if status payload = JStr (lit ''ok'') then Resolved pending (data payload)
                        else Rejected pending (remoteError (msg payload))])))
          else if post_type payload = JStr (lit ''message'') then (s, [EmitMessageEvent payload])
          else if post_type payload = JStr (lit ''meta_event'')
                  \<and> meta_event_type payload = JStr (lit ''lifecycle'') then
            (if sub_type payload = JStr (lit ''connect'') then (s, [EmitSelfId (self_id payload)])
             else (s, []))
          else (s, [EmitEvent payload]))"

text \<open>
  \<^verbatim>\<open>connectWebSocket\<close>, the handlers it puts on the socket (\<^verbatim>\<open>open\<close>, \<^verbatim>\<open>close\<close>,
  \<^verbatim>\<open>error\<close>), \<^verbatim>\<open>reconnect\<close> with the callback of its timer and the \<^verbatim>\<open>catch\<close> of a failed
  attempt, \<^verbatim>\<open>disconnect\<close>, and the listen callback of the HTTP server.
\<close>

definition connectWebSocket :: "adapter \<Rightarrow> adapter \<times> adapter_effect list" where
  "connectWebSocket s = (s\<lparr>ws := True\<rparr>, [NewWebSocket])"

definition onOpen :: "adapter \<Rightarrow> adapter \<times> adapter_effect list" where
  "onOpen s = (s\<lparr>connected := True\<rparr>, [ConnectResolved])"

definition reconnect :: "adapter_config \<Rightarrow> adapter \<Rightarrow> adapter \<times> adapter_effect list" where
  "reconnect config s = (s, [SetTimeout Reconnect (reconnect_ms config)])"

definition onClose :: "adapter_config \<Rightarrow> adapter \<Rightarrow> adapter \<times> adapter_effect list" where
  "onClose config s = reconnect config (s\<lparr>connected := False\<rparr>)"

definition onError :: "adapter \<Rightarrow> adapter \<times> adapter_effect list" where
  "onError s = (s, LogSocketError # (if \<not> connected s then [ConnectRejected] else []))"

definition reconnectTimer :: "adapter \<Rightarrow> adapter \<times> adapter_effect list" where
  "reconnectTimer s = (if \<not> connected s then connectWebSocket s else (s, []))"

definition reconnectFailed :: "adapter_config \<Rightarrow> adapter \<Rightarrow> adapter \<times> adapter_effect list" where
  "reconnectFailed config s =
     (case reconnect config s of (s', tr) \<Rightarrow> (s', LogReconnectFailed # tr))"

definition disconnect :: "adapter \<Rightarrow> adapter \<times> adapter_effect list" where
  "disconnect s =
     (s\<lparr>ws := False, connected := False, pendingRequests := Map.empty\<rparr>,
      if ws s then [WsCloseCall] else [])"

definition httpListening :: "adapter \<Rightarrow> adapter \<times> adapter_effect list" where
  "httpListening s = (s\<lparr>connected := True\<rparr>, [ConnectResolved])"

text \<open>
  Everything that can happen to an adapter, one event per entry point or callback, and
  the adapter run over a sequence of events.  The events come in any order: the socket,
  the timers and the callers decide.
\<close>

datatype adapter_event =
    CallSend jsstring jsval "jsval option"
  | CallConnectWebSocket
  | CallDisconnect
  | SocketOpen
  | SocketMessage frame
  | SocketClose
  | SocketError
  | TimerRequestTimeout nat jsstring
  | TimerReconnect
  | ReconnectFailed
  | HttpListening

fun step :: "adapter_config \<Rightarrow> adapter_event \<Rightarrow> adapter \<Rightarrow> adapter \<times> adapter_effect list" where
  "step config (CallSend action params sendThrows) s =
     (case send config action params sendThrows s of (r, s', tr) \<Rightarrow> (s', SendReturns r # tr))"
| "step config CallConnectWebSocket s = connectWebSocket s"
| "step config CallDisconnect s = disconnect s"
| "step config SocketOpen s = onOpen s"
| "step config (SocketMessage f) s = handleWebSocketMessage f s"
| "step config SocketClose s = onClose config s"
| "step config SocketError s = onError s"
| "step config (TimerRequestTimeout echoId action) s = requestTimeout echoId action s"
| "step config TimerReconnect s = reconnectTimer s"
| "step config ReconnectFailed s = reconnectFailed config s"
| "step config HttpListening s = httpListening s"

fun run :: "adapter_config \<Rightarrow> adapter_event list \<Rightarrow> adapter \<Rightarrow> adapter \<times> adapter_effect list" where
  "run config [] s = (s, [])"
| "run config (ev # evs) s =
     (case step config ev s of
        (s', tr) \<Rightarrow> (case run config evs s' of (s'', tr') \<Rightarrow> (s'', tr @ tr')))"

text \<open>
  The echoes drawn by the calls of \<^verbatim>\<open>send\<close> in a run, in the order of the calls; the
  number of calls of \<^verbatim>\<open>send\<close> in a sequence of events; an event that removes the pending
  entry of an echo (a response frame with that echo, the timeout of that call,
  \<^verbatim>\<open>disconnect\<close>).
\<close>

fun sends :: "adapter_event list \<Rightarrow> nat" where
  "sends [] = 0"
| "sends (CallSend action params sendThrows # evs) = Suc (sends evs)"
| "sends (ev # evs) = sends evs"

fun drawn :: "adapter_effect list \<Rightarrow> nat list" where
  "drawn [] = []"
| "drawn (SendReturns (Call e) # tr) = e # drawn tr"
| "drawn (x # tr) = drawn tr"

fun settles :: "nat \<Rightarrow> adapter_event \<Rightarrow> bool" where
  "settles e CallDisconnect = True"
| "settles e (TimerRequestTimeout k action) = (k = e)"
| "settles e (SocketMessage (Parsed payload)) = (echo_key (echo payload) = Some e)"
| "settles e ev = False"

definition example_config :: adapter_config where
  "example_config = \<lparr>timeout = Some 30000, reconnectDelay = Some 5000\<rparr>"

definition response :: "int \<Rightarrow> payload" where
  "response n =
     \<lparr>echo = JNum n, status = JStr (lit ''ok''), data = JNull, msg = None,
      post_type = JUndefined, meta_event_type = JUndefined, sub_type = JUndefined,
      self_id = JUndefined\<rparr>"


section \<open>Properties of command parsing\<close>

lemma split_ws_from_not_Nil: "split_ws_from cur s \<noteq> []"
  by (induction cur s rule: split_ws_from.induct) auto

lemma split_ws_not_Nil: "split_ws s \<noteq> []"
  by (simp add: split_ws_def split_ws_from_not_Nil)

lemma startsWith_Nil: "startsWith text []"
  by (simp add: startsWith_def)

text \<open>
  A matching empty prefix is rejected by the truthiness test: whenever the first prefix
  the text starts with is the empty string, the text is not a command.
\<close>

lemma parseCommand_empty_prefix:
  "find (startsWith text) commandPrefix = Some [] \<Longrightarrow> parseCommand commandPrefix text = None"
  by (simp add: parseCommand_def)

text \<open>
  C2: with the prefix list \<^verbatim>\<open>["#", ""]\<close>, the text \<^verbatim>\<open>"#echo hello world"\<close> is parsed
  to the command \<^verbatim>\<open>echo\<close> with the arguments \<^verbatim>\<open>hello\<close> and \<^verbatim>\<open>world\<close>, as the claim
  says; the text \<^verbatim>\<open>"hello"\<close>, which only the empty prefix matches, is not parsed to the
  command \<^verbatim>\<open>hello\<close> but to \<^verbatim>\<open>null\<close>: the empty prefix is falsy in
  \<^verbatim>\<open>if (!prefix) return null\<close>.
\<close>

theorem parseCommand_hash_and_empty_prefix:
  "parseCommand [lit ''#'', lit ''''] (lit ''#echo hello world'') =
     Some \<lparr>command = lit ''echo'', args = [lit ''hello'', lit ''world''], prefix = lit ''#''\<rparr>
   \<and> parseCommand [lit ''#'', lit ''''] (lit ''hello'') = None"
  by (simp add: parseCommand_def lit_def startsWith_def trim_def slice_from_def split_ws_def
      isWhiteSpace_def)


section \<open>Properties of the registry and of plugin identities\<close>


lemma jsmap_set_new: "k \<notin> fst ` set m \<Longrightarrow> jsmap_set k v m = m @ [(k, v)]"
  by (induction m) auto




lemma map_of_jsmap_delete: "map_of (jsmap_delete k m) = (map_of m)(k := None)"
  by (induction m) (auto simp: jsmap_delete_def fun_eq_iff)

lemma jsmap_has_iff: "jsmap_has m k \<longleftrightarrow> k \<in> fst ` set m"
  by (simp add: jsmap_has_def map_of_eq_None_iff)

lemma remove_js_suffix_js: "remove_js_suffix (s @ lit ''.js'') = s"
  by (simp add: remove_js_suffix_def endsWith_def lit_def)

lemma remove_js_suffix_mjs: "remove_js_suffix (s @ lit ''.mjs'') = s @ lit ''.mjs''"
  by (simp add: remove_js_suffix_def endsWith_def lit_def)

lemma replace_backslashes_append:
  "replace_backslashes (s @ t) = replace_backslashes s @ replace_backslashes t"
  by (simp add: replace_backslashes_def)

lemma getPluginId_js:
  "relative pluginDir filePath = r @ lit ''.js'' \<Longrightarrow>
   getPluginId relative pluginDir filePath = replace_backslashes r"
  by (simp add: getPluginId_def replace_backslashes_append)
     (simp add: replace_backslashes_def lit_def remove_js_suffix_js[unfolded lit_def, simplified])

lemma getPluginId_mjs:
  "relative pluginDir filePath = r @ lit ''.mjs'' \<Longrightarrow>
   getPluginId relative pluginDir filePath = replace_backslashes r @ lit ''.mjs''"
  by (simp add: getPluginId_def replace_backslashes_append)
     (simp add: replace_backslashes_def lit_def remove_js_suffix_mjs[unfolded lit_def, simplified])

text \<open>
  C9: the identity of a plugin file is its path below the plugin root with every
  backslash turned into a slash, and with the extension removed only when the extension
  is \<^verbatim>\<open>.js\<close>.  For a file with the extension \<^verbatim>\<open>.mjs\<close>, which the loader enumerates and
  the watcher accepts as well, the identity keeps the extension: \<^verbatim>\<open>sub/hello.mjs\<close> below
  the root has the identity \<^verbatim>\<open>sub/hello.mjs\<close>, where \<^verbatim>\<open>sub/hello.js\<close> (also when written
  with a backslash) has the identity \<^verbatim>\<open>sub/hello\<close>.
\<close>

theorem getPluginId_keeps_mjs_extension:
  "is_plugin_file (lit ''/bot/plugins/sub/hello.mjs'')
   \<and> getPluginId relative_below
         (lit ''/bot/plugins'') (lit ''/bot/plugins/sub/hello.mjs'') = lit ''sub/hello.mjs''
   \<and> getPluginId relative_below
         (lit ''/bot/plugins'') (lit ''/bot/plugins/sub/hello.js'') = lit ''sub/hello''
   \<and> getPluginId relative_below
         (lit ''C:/bot/plugins'') (lit ''C:/bot/plugins/sub'' @ [0x5C] @ lit ''hello.js'')
       = lit ''sub/hello''"
  by (simp add: is_plugin_file_def getPluginId_def remove_js_suffix_def endsWith_def
      replace_backslashes_def relative_below_def lit_def)

section \<open>Properties of unloading and loading\<close>

lemma unloadPlugin_not_loaded:
  "\<not> jsmap_has plugins pluginId \<Longrightarrow> unloadPlugin pluginId plugins = (False, plugins, [])"
  by (simp add: unloadPlugin_def)

lemma unloadPlugin_throws:
  "jsmap_get plugins pluginId = Some pluginInfo \<Longrightarrow>
   onUnload (info_instance pluginInfo) = Some (Throws e) \<Longrightarrow>
   unloadPlugin pluginId plugins =
     (False, plugins, [Invoke pluginId OnUnload, LogUnloadFailed pluginId e])"
  by (simp add: unloadPlugin_def jsmap_has_def jsmap_get_def)

lemma unloadPlugin_ok:
  "jsmap_get plugins pluginId = Some pluginInfo \<Longrightarrow>
   \<forall>e. onUnload (info_instance pluginInfo) \<noteq> Some (Throws e) \<Longrightarrow>
   unloadPlugin pluginId plugins =
     (True, jsmap_delete pluginId plugins,
      (case onUnload (info_instance pluginInfo) of
         None \<Rightarrow> [] | Some c \<Rightarrow> [Invoke pluginId OnUnload])
      @ [LogUnloaded pluginId, EmitPluginUnloaded pluginId])"
  by (auto simp: unloadPlugin_def jsmap_has_def jsmap_get_def
      split: option.splits completion.splits)

lemma jsmap_has_delete: "\<not> jsmap_has (jsmap_delete k m) k"
  by (simp add: jsmap_has_def map_of_jsmap_delete)

lemma jsmap_get_delete_other: "k' \<noteq> k \<Longrightarrow> jsmap_get (jsmap_delete k m) k' = jsmap_get m k'"
  by (simp add: jsmap_get_def map_of_jsmap_delete)

text \<open>
  C4, as the code has it: \<^verbatim>\<open>unloadPlugin\<close> on an identity that is not loaded returns
  \<^verbatim>\<open>false\<close> and leaves the registry as it is, with no effect.  On a loaded identity whose
  \<^verbatim>\<open>onUnload\<close> does not throw (or is not a function), it calls \<^verbatim>\<open>onUnload\<close>, removes the
  record, leaves every other record as it is and returns \<^verbatim>\<open>true\<close>.  On a loaded identity
  whose \<^verbatim>\<open>onUnload\<close> throws, the exception is contained (it is logged and a value is
  returned), but the record stays in the registry and the value returned is \<^verbatim>\<open>false\<close>.
\<close>

theorem unloadPlugin_cases:
  "(\<not> jsmap_has plugins pluginId \<longrightarrow>
      unloadPlugin pluginId plugins = (False, plugins, []))
   \<and> (\<forall>pluginInfo.
        jsmap_get plugins pluginId = Some pluginInfo
        \<and> (\<forall>e. onUnload (info_instance pluginInfo) \<noteq> Some (Throws e)) \<longrightarrow>
        unloadPlugin pluginId plugins =
          (True, jsmap_delete pluginId plugins,
           (case onUnload (info_instance pluginInfo) of
              None \<Rightarrow> [] | Some c \<Rightarrow> [Invoke pluginId OnUnload])
           @ [LogUnloaded pluginId, EmitPluginUnloaded pluginId])
        \<and> \<not> jsmap_has (jsmap_delete pluginId plugins) pluginId
        \<and> (\<forall>k. k \<noteq> pluginId \<longrightarrow>
              jsmap_get (jsmap_delete pluginId plugins) k = jsmap_get plugins k))
   \<and> (\<forall>pluginInfo e.
        jsmap_get plugins pluginId = Some pluginInfo
        \<and> onUnload (info_instance pluginInfo) = Some (Throws e) \<longrightarrow>
        unloadPlugin pluginId plugins =
          (False, plugins, [Invoke pluginId OnUnload, LogUnloadFailed pluginId e]))"
proof (intro conjI allI impI)
  assume "\<not> jsmap_has plugins pluginId"
  then show "unloadPlugin pluginId plugins = (False, plugins, [])"
    by (rule unloadPlugin_not_loaded)
next
  fix pluginInfo
  assume "jsmap_get plugins pluginId = Some pluginInfo
          \<and> (\<forall>e. onUnload (info_instance pluginInfo) \<noteq> Some (Throws e))"
  then show "unloadPlugin pluginId plugins =
          (True, jsmap_delete pluginId plugins,
           (case onUnload (info_instance pluginInfo) of
              None \<Rightarrow> [] | Some c \<Rightarrow> [Invoke pluginId OnUnload])
           @ [LogUnloaded pluginId, EmitPluginUnloaded pluginId])"
    by (simp add: unloadPlugin_ok)
next
  show "\<not> jsmap_has (jsmap_delete pluginId plugins) pluginId"
    by (rule jsmap_has_delete)
next
  fix k :: jsstring
  assume "k \<noteq> pluginId"
  then show "jsmap_get (jsmap_delete pluginId plugins) k = jsmap_get plugins k"
    by (rule jsmap_get_delete_other)
next
  fix pluginInfo e
  assume "jsmap_get plugins pluginId = Some pluginInfo
          \<and> onUnload (info_instance pluginInfo) = Some (Throws e)"
  then show "unloadPlugin pluginId plugins =
          (False, plugins, [Invoke pluginId OnUnload, LogUnloadFailed pluginId e])"
    by (simp add: unloadPlugin_throws)
qed

theorem unloadPlugin_cases_witness:
  "\<not> jsmap_has ([] :: registry) (lit ''a'')
   \<and> unloadPlugin (lit ''a'') [] = (False, [], [])
   \<and> unloadPlugin (lit ''a'')
       [(lit ''a'', example_info (lit ''a'')
          (example_instance (Returns JUndefined) (Returns JUndefined) (Returns JUndefined))),
        (lit ''b'', example_info (lit ''b'')
          (example_instance (Returns JUndefined) (Returns JUndefined) (Returns JUndefined)))]
     = (True,
        [(lit ''b'', example_info (lit ''b'')
          (example_instance (Returns JUndefined) (Returns JUndefined) (Returns JUndefined)))],
        [Invoke (lit ''a'') OnUnload, LogUnloaded (lit ''a''), EmitPluginUnloaded (lit ''a'')])
   \<and> unloadPlugin (lit ''a'')
       [(lit ''a'', example_info (lit ''a'')
          (example_instance (Returns JUndefined) (Returns JUndefined) (Throws JNull)))]
     = (False,
        [(lit ''a'', example_info (lit ''a'')
          (example_instance (Returns JUndefined) (Returns JUndefined) (Throws JNull)))],
        [Invoke (lit ''a'') OnUnload, LogUnloadFailed (lit ''a'') JNull])"
  using unloadPlugin_cases[of "[]" "lit ''a''"]
    unloadPlugin_cases[of
      "[(lit ''a'', example_info (lit ''a'')
          (example_instance (Returns JUndefined) (Returns JUndefined) (Returns JUndefined))),
        (lit ''b'', example_info (lit ''b'')
          (example_instance (Returns JUndefined) (Returns JUndefined) (Returns JUndefined)))]"
      "lit ''a''"]
    unloadPlugin_cases[of
      "[(lit ''a'', example_info (lit ''a'')
          (example_instance (Returns JUndefined) (Returns JUndefined) (Throws JNull)))]"
      "lit ''a''"]
  by (simp add: jsmap_has_def jsmap_get_def jsmap_delete_def example_info_def
      example_instance_def lit_def)

text \<open>
  The claim C4 as it was stated (whether or not \<^verbatim>\<open>onUnload\<close> throws, the record is
  removed and the unload is reported as successful) fails for a plugin whose \<^verbatim>\<open>onUnload\<close>
  throws: the plugin is loaded, \<^verbatim>\<open>unloadPlugin\<close> returns \<^verbatim>\<open>false\<close>, and the plugin is still
  registered afterwards.
\<close>

theorem unloadPlugin_throwing_counterexample:
  "jsmap_has
     [(lit ''a'', example_info (lit ''a'')
        (example_instance (Returns JUndefined) (Returns JUndefined) (Throws (JError (lit ''boom'')))))]
     (lit ''a'')
   \<and> fst (unloadPlugin (lit ''a'')
       [(lit ''a'', example_info (lit ''a'')
          (example_instance (Returns JUndefined) (Returns JUndefined) (Throws (JError (lit ''boom'')))))])
     = False
   \<and> jsmap_has
       (fst (snd (unloadPlugin (lit ''a'')
         [(lit ''a'', example_info (lit ''a'')
            (example_instance (Returns JUndefined) (Returns JUndefined)
               (Throws (JError (lit ''boom'')))))])))
       (lit ''a'')"
  by (simp add: unloadPlugin_def jsmap_has_def jsmap_get_def example_info_def
      example_instance_def)
















section \<open>Properties of message dispatch\<close>

lemma handleMessage_Cons:
  "handleMessage context (entry # plugins) =
     (if claims context entry then (True, fst (dispatch_body context (fst entry) (snd entry)))
      else (fst (handleMessage context plugins),
            plugin_effects context entry @ snd (handleMessage context plugins)))"
  by (cases entry)
     (auto simp: claims_def plugin_effects_def split: prod.splits completion.splits iteration.splits)

lemma handleMessage_append:
  "\<forall>p \<in> set before. \<not> claims context p \<Longrightarrow>
   handleMessage context (before @ rest) =
     (fst (handleMessage context rest),
      concat (map (plugin_effects context) before) @ snd (handleMessage context rest))"
  by (induction before) (simp_all add: handleMessage_Cons del: handleMessage.simps)

lemma handleMessage_no_claim:
  "\<forall>p \<in> set plugins. \<not> claims context p \<Longrightarrow>
   handleMessage context plugins = (False, concat (map (plugin_effects context) plugins))"
  using handleMessage_append[of plugins "context" "[]"] by simp

lemma claims_iff:
  "claims context (pluginId, pluginInfo) \<longleftrightarrow>
     (\<exists>f. onMessage (info_instance pluginInfo) = Some f \<and> f context = Returns (JBool True))
     \<or> ((onMessage (info_instance pluginInfo) = None
          \<or> (\<exists>f r. onMessage (info_instance pluginInfo) = Some f \<and> f context = Returns r
                    \<and> r \<noteq> JBool True))
         \<and> isCommand context
         \<and> (\<exists>g. onCommand (info_instance pluginInfo) = Some g
                 \<and> g context = Returns (JBool True)))"
  by (auto simp: claims_def dispatch_body_def onCommand_part_def
      split: option.splits completion.splits prod.splits if_splits)

lemma throws_iff:
  "snd (dispatch_body context pluginId pluginInfo) = Throws e \<longleftrightarrow>
     (\<exists>f. onMessage (info_instance pluginInfo) = Some f \<and> f context = Throws e)
     \<or> ((onMessage (info_instance pluginInfo) = None
          \<or> (\<exists>f r. onMessage (info_instance pluginInfo) = Some f \<and> f context = Returns r
                    \<and> r \<noteq> JBool True))
         \<and> isCommand context
         \<and> (\<exists>g. onCommand (info_instance pluginInfo) = Some g \<and> g context = Throws e))"
  by (auto simp: dispatch_body_def onCommand_part_def
      split: option.splits completion.splits prod.splits if_splits)

lemma Invoke_in_dispatch_body:
  "Invoke k h \<in> set (fst (dispatch_body context pluginId pluginInfo)) \<Longrightarrow> k = pluginId"
  by (auto simp: dispatch_body_def onCommand_part_def
      split: option.splits completion.splits prod.splits if_splits)

lemma Invoke_in_plugin_effects:
  "Invoke k h \<in> set (plugin_effects context entry) \<Longrightarrow> k = fst entry"
  by (auto simp: plugin_effects_def split: completion.splits
      dest: Invoke_in_dispatch_body)

lemma onMessage_invoked:
  "onMessage (info_instance pluginInfo) \<noteq> None \<Longrightarrow>
   Invoke pluginId OnMessage \<in> set (fst (dispatch_body context pluginId pluginInfo))"
  by (auto simp: dispatch_body_def onCommand_part_def
      split: option.splits completion.splits prod.splits if_splits)

lemma onMessage_invoked_effects:
  "onMessage (info_instance (snd entry)) \<noteq> None \<Longrightarrow>
   Invoke (fst entry) OnMessage \<in> set (plugin_effects context entry)"
  by (simp add: plugin_effects_def onMessage_invoked)

lemma isCommand_createContext: "isCommand (createContext m) = False"
  by (simp add: createContext_def Let_def)



lemma loadPlugin_new_identity:
  "\<not> jsmap_has plugins (getPluginId relative pluginDir filePath) \<Longrightarrow>
   fst (snd (loadPlugin relative pluginDir filePath (Returns (pluginModule, plugin)) now plugins)) =
     plugins @
     [(getPluginId relative pluginDir filePath,
       \<lparr>info_id = getPluginId relative pluginDir filePath, info_path = filePath,
        info_instance = plugin, info_module = pluginModule, info_loadedAt = now\<rparr>)]"
  by (simp add: loadPlugin_def Let_def jsmap_set_new jsmap_has_iff)

lemma getPluginId_example:
  "getPluginId relative_below (lit ''plugins'') (lit ''plugins/a.js'') = lit ''a''"
  "getPluginId relative_below (lit ''plugins'') (lit ''plugins/b.js'') = lit ''b''"
  "getPluginId relative_below (lit ''plugins'') (lit ''plugins/c.js'') = lit ''c''"
  by (simp_all add: getPluginId_def remove_js_suffix_def endsWith_def replace_backslashes_def
      relative_below_def lit_def)

text \<open>
  C7: the dispatch walks the registry in its order, which is the order of loading (a
  plugin loaded under a new identity is put at the end).  When the first entry that
  claims the message stands after the entries \<open>before\<close> and before the entries \<open>after\<close>,
  the result is \<^verbatim>\<open>true\<close>, the effects are those of the entries before it, in order,
  followed by its own, so the handlers of the earlier plugins have been called, and no
  handler of any other plugin is called.  When no entry claims the message, the result
  is \<^verbatim>\<open>false\<close> and every entry is visited.  An entry claims the message exactly when one
  of its handlers that is called returns the literal \<^verbatim>\<open>true\<close>; any other value returned
  goes on.
\<close>

theorem handleMessage_short_circuit:
  "((\<forall>p \<in> set before. \<not> claims context p) \<and> claims context (pluginId, pluginInfo) \<longrightarrow>
      handleMessage context (before @ (pluginId, pluginInfo) # after) =
        (True,
         concat (map (plugin_effects context) before)
         @ fst (dispatch_body context pluginId pluginInfo))
      \<and> (\<forall>p \<in> set before.
            onMessage (info_instance (snd p)) \<noteq> None \<longrightarrow>
            Invoke (fst p) OnMessage
              \<in> set (snd (handleMessage context (before @ (pluginId, pluginInfo) # after))))
      \<and> (\<forall>k h. k \<notin> fst ` set before \<and> k \<noteq> pluginId \<longrightarrow>
            Invoke k h
              \<notin> set (snd (handleMessage context (before @ (pluginId, pluginInfo) # after)))))
   \<and> ((\<forall>p \<in> set plugins. \<not> claims context p) \<longrightarrow>
        handleMessage context plugins =
          (False, concat (map (plugin_effects context) plugins)))
   \<and> (claims context (pluginId, pluginInfo) \<longleftrightarrow>
        (\<exists>f. onMessage (info_instance pluginInfo) = Some f \<and> f context = Returns (JBool True))
        \<or> ((onMessage (info_instance pluginInfo) = None
             \<or> (\<exists>f r. onMessage (info_instance pluginInfo) = Some f \<and> f context = Returns r
                       \<and> r \<noteq> JBool True))
            \<and> isCommand context
            \<and> (\<exists>g. onCommand (info_instance pluginInfo) = Some g
                    \<and> g context = Returns (JBool True))))
   \<and> (\<not> jsmap_has plugins (getPluginId relative pluginDir filePath) \<longrightarrow>
        fst (snd (loadPlugin relative pluginDir filePath (Returns (pluginModule, plugin)) now
                    plugins)) =
          plugins @
          [(getPluginId relative pluginDir filePath,
            \<lparr>info_id = getPluginId relative pluginDir filePath, info_path = filePath,
             info_instance = plugin, info_module = pluginModule, info_loadedAt = now\<rparr>)])"
proof (intro conjI impI)
  assume hyp: "(\<forall>p \<in> set before. \<not> claims context p) \<and> claims context (pluginId, pluginInfo)"
  then show eq: "handleMessage context (before @ (pluginId, pluginInfo) # after) =
        (True,
         concat (map (plugin_effects context) before)
         @ fst (dispatch_body context pluginId pluginInfo))"
    by (simp add: handleMessage_append handleMessage_Cons del: handleMessage.simps)
  show "\<forall>p \<in> set before.
            onMessage (info_instance (snd p)) \<noteq> None \<longrightarrow>
            Invoke (fst p) OnMessage
              \<in> set (snd (handleMessage context (before @ (pluginId, pluginInfo) # after)))"
  proof (intro ballI impI)
    fix p
    assume "p \<in> set before" and "onMessage (info_instance (snd p)) \<noteq> None"
    then have "Invoke (fst p) OnMessage \<in> set (concat (map (plugin_effects context) before))"
      using onMessage_invoked_effects[of p "context"] by auto
    then show "Invoke (fst p) OnMessage
              \<in> set (snd (handleMessage context (before @ (pluginId, pluginInfo) # after)))"
      by (simp add: eq)
  qed
  show "\<forall>k h. k \<notin> fst ` set before \<and> k \<noteq> pluginId \<longrightarrow>
            Invoke k h
              \<notin> set (snd (handleMessage context (before @ (pluginId, pluginInfo) # after)))"
  proof (intro allI impI notI)
    fix k h
    assume other: "k \<notin> fst ` set before \<and> k \<noteq> pluginId"
      and "Invoke k h \<in> set (snd (handleMessage context (before @ (pluginId, pluginInfo) # after)))"
    then have "Invoke k h \<in> set (concat (map (plugin_effects context) before))
               \<or> Invoke k h \<in> set (fst (dispatch_body context pluginId pluginInfo))"
      by (simp add: eq)
    then show False
    proof
      assume "Invoke k h \<in> set (concat (map (plugin_effects context) before))"
      then obtain p where "p \<in> set before" "Invoke k h \<in> set (plugin_effects context p)"
        by auto
      then have "k = fst p" "p \<in> set before"
        using Invoke_in_plugin_effects by blast+
      with other show False by force
    next
      assume "Invoke k h \<in> set (fst (dispatch_body context pluginId pluginInfo))"
      then have "k = pluginId" by (rule Invoke_in_dispatch_body)
      with other show False by simp
    qed
  qed
next
  assume "\<forall>p \<in> set plugins. \<not> claims context p"
  then show "handleMessage context plugins =
          (False, concat (map (plugin_effects context) plugins))"
    by (rule handleMessage_no_claim)
next
  show "claims context (pluginId, pluginInfo) \<longleftrightarrow>
        (\<exists>f. onMessage (info_instance pluginInfo) = Some f \<and> f context = Returns (JBool True))
        \<or> ((onMessage (info_instance pluginInfo) = None
             \<or> (\<exists>f r. onMessage (info_instance pluginInfo) = Some f \<and> f context = Returns r
                       \<and> r \<noteq> JBool True))
            \<and> isCommand context
            \<and> (\<exists>g. onCommand (info_instance pluginInfo) = Some g
                    \<and> g context = Returns (JBool True)))"
    by (rule claims_iff)
next
  assume "\<not> jsmap_has plugins (getPluginId relative pluginDir filePath)"
  then show "fst (snd (loadPlugin relative pluginDir filePath (Returns (pluginModule, plugin)) now
                    plugins)) =
          plugins @
          [(getPluginId relative pluginDir filePath,
            \<lparr>info_id = getPluginId relative pluginDir filePath, info_path = filePath,
             info_instance = plugin, info_module = pluginModule, info_loadedAt = now\<rparr>)]"
    by (rule loadPlugin_new_identity)
qed

theorem handleMessage_short_circuit_witness:
  "handleMessage (createContext (example_message (lit ''group'') (lit ''hi'')))
     (fst (snd (loadPlugin relative_below (lit ''plugins'') (lit ''plugins/c.js'')
        (Returns (JNull,
           example_instance (Returns (JBool True)) (Returns JUndefined) (Returns JUndefined))) 3
      (fst (snd (loadPlugin relative_below (lit ''plugins'') (lit ''plugins/b.js'')
        (Returns (JNull,
           example_instance (Returns (JBool True)) (Returns JUndefined) (Returns JUndefined))) 2
      (fst (snd (loadPlugin relative_below (lit ''plugins'') (lit ''plugins/a.js'')
        (Returns (JNull,
           example_instance (Returns (JNum 1)) (Returns JUndefined) (Returns JUndefined))) 1
      [])))))))))
   = (True, [Invoke (lit ''a'') OnMessage, Invoke (lit ''b'') OnMessage])"
proof -
  let ?A = "\<lparr>info_id = lit ''a'', info_path = lit ''plugins/a.js'',
             info_instance = example_instance (Returns (JNum 1)) (Returns JUndefined) (Returns JUndefined),
             info_module = JNull, info_loadedAt = 1\<rparr>"
  let ?B = "\<lparr>info_id = lit ''b'', info_path = lit ''plugins/b.js'',
             info_instance = example_instance (Returns (JBool True)) (Returns JUndefined) (Returns JUndefined),
             info_module = JNull, info_loadedAt = 2\<rparr>"
  let ?C = "\<lparr>info_id = lit ''c'', info_path = lit ''plugins/c.js'',
             info_instance = example_instance (Returns (JBool True)) (Returns JUndefined) (Returns JUndefined),
             info_module = JNull, info_loadedAt = 3\<rparr>"
  let ?ctx = "createContext (example_message (lit ''group'') (lit ''hi''))"
  have names: "lit ''a'' \<noteq> lit ''b''" "lit ''a'' \<noteq> lit ''c''" "lit ''b'' \<noteq> lit ''c''"
    by (simp_all add: lit_def)
  have la: "fst (snd (loadPlugin relative_below (lit ''plugins'') (lit ''plugins/a.js'')
        (Returns (JNull,
           example_instance (Returns (JNum 1)) (Returns JUndefined) (Returns JUndefined))) 1 []))
      = [(lit ''a'', ?A)]"
    using handleMessage_short_circuit[of "[]" ?ctx "lit ''a''" ?A "[]" "[]" relative_below
        "lit ''plugins''" "lit ''plugins/a.js''" JNull
        "example_instance (Returns (JNum 1)) (Returns JUndefined) (Returns JUndefined)" 1]
    by (simp add: getPluginId_example jsmap_has_def)
  have lb: "fst (snd (loadPlugin relative_below (lit ''plugins'') (lit ''plugins/b.js'')
        (Returns (JNull,
           example_instance (Returns (JBool True)) (Returns JUndefined) (Returns JUndefined))) 2
        [(lit ''a'', ?A)]))
      = [(lit ''a'', ?A), (lit ''b'', ?B)]"
    using handleMessage_short_circuit[of "[]" ?ctx "lit ''a''" ?A "[]" "[(lit ''a'', ?A)]"
        relative_below "lit ''plugins''" "lit ''plugins/b.js''" JNull
        "example_instance (Returns (JBool True)) (Returns JUndefined) (Returns JUndefined)" 2]
      names
    by (simp add: getPluginId_example jsmap_has_def)
  have lc: "fst (snd (loadPlugin relative_below (lit ''plugins'') (lit ''plugins/c.js'')
        (Returns (JNull,
           example_instance (Returns (JBool True)) (Returns JUndefined) (Returns JUndefined))) 3
        [(lit ''a'', ?A), (lit ''b'', ?B)]))
      = [(lit ''a'', ?A), (lit ''b'', ?B), (lit ''c'', ?C)]"
    using handleMessage_short_circuit[of "[]" ?ctx "lit ''a''" ?A "[]"
        "[(lit ''a'', ?A), (lit ''b'', ?B)]"
        relative_below "lit ''plugins''" "lit ''plugins/c.js''" JNull
        "example_instance (Returns (JBool True)) (Returns JUndefined) (Returns JUndefined)" 3]
      names
    by (simp add: getPluginId_example jsmap_has_def)
  have "handleMessage ?ctx ([(lit ''a'', ?A)] @ (lit ''b'', ?B) # [(lit ''c'', ?C)])
        = (True, [Invoke (lit ''a'') OnMessage, Invoke (lit ''b'') OnMessage])"
    using handleMessage_short_circuit[of "[(lit ''a'', ?A)]" ?ctx "lit ''b''" ?B
        "[(lit ''c'', ?C)]" "[]" relative_below "lit ''plugins''" "lit ''plugins/a.js''" JNull
        "example_instance (Returns (JNum 1)) (Returns JUndefined) (Returns JUndefined)" 1]
    by (simp add: claims_def plugin_effects_def dispatch_body_def onCommand_part_def
        example_instance_def isCommand_createContext)
  then show ?thesis
    by (simp only: la lb lc append_Cons append_Nil)
qed

section \<open>Properties of the message processor\<close>

lemma filter_send_dispatch_body:
  "filter is_send (fst (dispatch_body context pluginId pluginInfo)) = []"
  by (auto simp: dispatch_body_def onCommand_part_def is_send_def
      split: option.splits completion.splits prod.splits if_splits)

lemma filter_send_plugin_effects: "filter is_send (plugin_effects context entry) = []"
  by (simp add: plugin_effects_def filter_send_dispatch_body is_send_def
      split: completion.splits)

lemma filter_send_handleMessage: "filter is_send (snd (handleMessage context plugins)) = []"
  by (induction plugins)
     (simp_all add: handleMessage_Cons filter_send_plugin_effects filter_send_dispatch_body
       del: handleMessage.simps(2))

lemma isCommand_classify:
  "isCommand (classify commandPrefix (createContext m)) \<longleftrightarrow>
     parseCommand commandPrefix (extractText m) \<noteq> None"
  by (auto simp: classify_def isCommand_createContext createContext_def Let_def
      split: option.splits)

lemma reply_classify:
  "reply (classify commandPrefix (createContext m)) content =
     (if message_type m = lit ''private'' then SendPrivateMsg (user_id m) content
      else SendGroupMsg (group_id m) content)"
  by (simp add: classify_def createContext_def Let_def split: option.splits)

lemma snd_process: "snd (process commandPrefix plugins replyResult m) = Returns ()"
  by (simp add: process_def Let_def replyUnknownCommand_def
      split: completion.splits prod.splits)

lemma fst_process:
  "fst (process commandPrefix plugins replyResult m) =
     EmitMessage #
     (if isCommand (classify commandPrefix (createContext m)) then [EmitCommand] else [])
     @ snd (handleMessage (classify commandPrefix (createContext m)) plugins)
     @ (if isCommand (classify commandPrefix (createContext m))
           \<and> \<not> fst (handleMessage (classify commandPrefix (createContext m)) plugins)
        then Send (reply (classify commandPrefix (createContext m))
                     (unknownCommandText (ctx_command (classify commandPrefix (createContext m)))))
             # (case replyResult of Returns v \<Rightarrow> [] | Throws e \<Rightarrow> [LogReplyFailed e])
        else [])"
  by (auto simp: process_def Let_def replyUnknownCommand_def classify_def isCommand_createContext
      split: completion.splits prod.splits option.splits)

text \<open>
  C10: \<^verbatim>\<open>process\<close> always completes normally.  Among its effects, the send calls of
  the processor are: exactly one, the unknown-command notice, sent to the user when the
  message is private and to the group otherwise, when the context is a command and the
  dispatch returned \<^verbatim>\<open>false\<close>; none otherwise.  The context is a command exactly when
  \<^verbatim>\<open>parseCommand\<close> gives a result for its text.  When the reply fails, the failure is
  logged and nothing else happens.
\<close>

theorem process_unknown_command_reply:
  "snd (process commandPrefix plugins replyResult m) = Returns ()
   \<and> filter is_send (fst (process commandPrefix plugins replyResult m)) =
       (if isCommand (classify commandPrefix (createContext m))
           \<and> \<not> fst (handleMessage (classify commandPrefix (createContext m)) plugins)
        then [Send (if message_type m = lit ''private''
                    then SendPrivateMsg (user_id m)
                           (unknownCommandText
                              (ctx_command (classify commandPrefix (createContext m))))
                    else SendGroupMsg (group_id m)
                           (unknownCommandText
                              (ctx_command (classify commandPrefix (createContext m)))))]
        else [])
   \<and> (isCommand (classify commandPrefix (createContext m)) \<longleftrightarrow>
        parseCommand commandPrefix (extractText m) \<noteq> None)
   \<and> (\<forall>e. LogReplyFailed e \<in> set (fst (process commandPrefix plugins replyResult m)) \<longleftrightarrow>
            replyResult = Throws e
            \<and> isCommand (classify commandPrefix (createContext m))
            \<and> \<not> fst (handleMessage (classify commandPrefix (createContext m)) plugins))"
proof (intro conjI allI)
  show "snd (process commandPrefix plugins replyResult m) = Returns ()"
    by (rule snd_process)
  show "filter is_send (fst (process commandPrefix plugins replyResult m)) =
       (if isCommand (classify commandPrefix (createContext m))
           \<and> \<not> fst (handleMessage (classify commandPrefix (createContext m)) plugins)
        then [Send (if message_type m = lit ''private''
                    then SendPrivateMsg (user_id m)
                           (unknownCommandText
                              (ctx_command (classify commandPrefix (createContext m))))
                    else SendGroupMsg (group_id m)
                           (unknownCommandText
                              (ctx_command (classify commandPrefix (createContext m)))))]
        else [])"
    by (simp add: fst_process filter_send_handleMessage reply_classify is_send_def
        split: completion.splits)
  show "isCommand (classify commandPrefix (createContext m)) \<longleftrightarrow>
        parseCommand commandPrefix (extractText m) \<noteq> None"
    by (rule isCommand_classify)
  fix e
  have "LogReplyFailed e \<notin> set (snd (handleMessage context plugins))" for "context"
  proof (induction plugins)
    case Nil
    show ?case by simp
  next
    case (Cons a plugins)
    have "LogReplyFailed e \<notin> set (fst (dispatch_body context (fst a) (snd a)))"
      by (auto simp: dispatch_body_def onCommand_part_def
          split: option.splits completion.splits prod.splits if_splits)
    with Cons show ?case
      by (auto simp: handleMessage_Cons plugin_effects_def split: completion.splits
          simp del: handleMessage.simps(2))
  qed
  then show "LogReplyFailed e \<in> set (fst (process commandPrefix plugins replyResult m)) \<longleftrightarrow>
            replyResult = Throws e
            \<and> isCommand (classify commandPrefix (createContext m))
            \<and> \<not> fst (handleMessage (classify commandPrefix (createContext m)) plugins)"
    by (auto simp: fst_process split: completion.splits)
qed

theorem process_unknown_command_reply_witness:
  "filter is_send
     (fst (process [lit ''#'', lit ''''] [] (Throws (JError (lit ''timeout'')))
        (example_message (lit ''group'') (lit ''#ping'')))) =
     [Send (SendGroupMsg (JNum 1) (unknownCommandText (Some (lit ''ping''))))]
   \<and> filter is_send
     (fst (process [lit ''#'', lit ''''] [] (Returns JNull)
        (example_message (lit ''group'') (lit ''ping'')))) = []"
  using process_unknown_command_reply[of "[lit ''#'', lit '''']" "[]"
      "Throws (JError (lit ''timeout''))" "example_message (lit ''group'') (lit ''#ping'')"]
    process_unknown_command_reply[of "[lit ''#'', lit '''']" "[]"
      "Returns JNull" "example_message (lit ''group'') (lit ''ping'')"]
  by (simp add: classify_def createContext_def extractText_def example_message_def Let_def
      parseCommand_def lit_def startsWith_def trim_def slice_from_def split_ws_def
      isWhiteSpace_def)

section \<open>Properties of the protocol adapter\<close>

lemma drawn_append: "drawn (tr @ tr') = drawn tr @ drawn tr'"
  by (induction tr rule: drawn.induct) simp_all

lemma js_increment_ge: "n \<le> js_increment n"
  by (simp add: js_increment_def)

lemma js_increment_below: "n < counter_limit \<Longrightarrow> js_increment n = n + 1"
  by (simp add: js_increment_def)

lemma js_increment_limit: "js_increment counter_limit = counter_limit"
  by (simp add: js_increment_def)

lemma js_increment_bounded: "n \<le> counter_limit \<Longrightarrow> js_increment n \<le> counter_limit"
  by (simp add: js_increment_def)

lemma sends_Cons: "sends (ev # evs) = sends [ev] + sends evs"
  by (cases ev) simp_all

lemma step_counter_mono: "echoCounter s \<le> echoCounter (fst (step config ev s))"
proof (cases ev)
  case (CallSend action params sendThrows)
  then show ?thesis
    by (simp add: send_def Let_def js_increment_ge split: option.splits)
next
  case (SocketMessage f)
  then show ?thesis
    by (simp add: handleWebSocketMessage_def split: frame.splits option.splits)
qed (simp_all add: connectWebSocket_def disconnect_def onOpen_def onClose_def reconnect_def
      onError_def requestTimeout_def reconnectTimer_def reconnectFailed_def httpListening_def)

lemma step_counter_bounded:
  "echoCounter s \<le> counter_limit \<Longrightarrow> echoCounter (fst (step config ev s)) \<le> counter_limit"
proof (cases ev)
  case (CallSend action params sendThrows)
  assume "echoCounter s \<le> counter_limit"
  with CallSend show ?thesis
    by (simp add: send_def Let_def js_increment_bounded split: option.splits)
next
  case (SocketMessage f)
  assume "echoCounter s \<le> counter_limit"
  with SocketMessage show ?thesis
    by (simp add: handleWebSocketMessage_def split: frame.splits option.splits)
qed (simp_all add: connectWebSocket_def disconnect_def onOpen_def onClose_def reconnect_def
      onError_def requestTimeout_def reconnectTimer_def reconnectFailed_def httpListening_def)

lemma step_drawn:
  "echoCounter s + sends [ev] \<le> counter_limit \<Longrightarrow>
   drawn (snd (step config ev s)) = [echoCounter s ..< echoCounter (fst (step config ev s))]
   \<and> echoCounter (fst (step config ev s)) \<le> echoCounter s + sends [ev]"
proof (cases ev)
  case (CallSend action params sendThrows)
  assume "echoCounter s + sends [ev] \<le> counter_limit"
  with CallSend have "echoCounter s < counter_limit" by simp
  with CallSend show ?thesis
    by (simp add: send_def Let_def js_increment_below split: option.splits)
next
  case (SocketMessage f)
  then show ?thesis
    by (simp add: handleWebSocketMessage_def split: frame.splits option.splits)
qed (simp_all add: connectWebSocket_def disconnect_def onOpen_def onClose_def reconnect_def
      onError_def requestTimeout_def reconnectTimer_def reconnectFailed_def httpListening_def)

lemma fst_run_Cons:
  "fst (run config (ev # evs) s) = fst (run config evs (fst (step config ev s)))"
  by (simp split: prod.splits)

lemma snd_run_Cons:
  "snd (run config (ev # evs) s) =
     snd (step config ev s) @ snd (run config evs (fst (step config ev s)))"
  by (simp split: prod.splits)

lemma run_counter_mono: "echoCounter s \<le> echoCounter (fst (run config evs s))"
proof (induction evs arbitrary: s)
  case Nil
  show ?case by simp
next
  case (Cons ev evs)
  have "echoCounter s \<le> echoCounter (fst (step config ev s))"
    by (rule step_counter_mono)
  also have "\<dots> \<le> echoCounter (fst (run config evs (fst (step config ev s))))"
    by (rule Cons.IH)
  finally show ?case by (simp only: fst_run_Cons)
qed

lemma run_counter_bounded:
  "echoCounter s \<le> counter_limit \<Longrightarrow> echoCounter (fst (run config evs s)) \<le> counter_limit"
proof (induction evs arbitrary: s)
  case Nil
  then show ?case by simp
next
  case (Cons ev evs)
  have "echoCounter (fst (step config ev s)) \<le> counter_limit"
    using Cons.prems by (rule step_counter_bounded)
  then have "echoCounter (fst (run config evs (fst (step config ev s)))) \<le> counter_limit"
    by (rule Cons.IH)
  then show ?case by (simp only: fst_run_Cons)
qed

lemma run_drawn:
  "echoCounter s + sends evs \<le> counter_limit \<Longrightarrow>
   drawn (snd (run config evs s)) = [echoCounter s ..< echoCounter (fst (run config evs s))]"
proof (induction evs arbitrary: s)
  case Nil
  show ?case by simp
next
  case (Cons ev evs)
  let ?s' = "fst (step config ev s)"
  have total: "echoCounter s + sends [ev] + sends evs \<le> counter_limit"
    using Cons.prems sends_Cons[of ev evs] by simp
  then have one: "echoCounter s + sends [ev] \<le> counter_limit" by simp
  have a: "drawn (snd (step config ev s)) = [echoCounter s ..< echoCounter ?s']"
    and le: "echoCounter ?s' \<le> echoCounter s + sends [ev]"
    using step_drawn[OF one, of config] by simp_all
  have "echoCounter ?s' + sends evs \<le> counter_limit"
    using le total by simp
  then have b: "drawn (snd (run config evs ?s'))
      = [echoCounter ?s' ..< echoCounter (fst (run config evs ?s'))]"
    by (rule Cons.IH)
  have m1: "echoCounter s \<le> echoCounter ?s'" by (rule step_counter_mono)
  have m2: "echoCounter ?s' \<le> echoCounter (fst (run config evs ?s'))"
    by (rule run_counter_mono)
  have "[echoCounter s ..< echoCounter ?s']
        @ [echoCounter ?s' ..< echoCounter (fst (run config evs ?s'))]
        = [echoCounter s ..< echoCounter (fst (run config evs ?s'))]"
    using m1 m2 by (metis le_Suc_ex upt_add_eq_append)
  then show ?case
    by (simp only: snd_run_Cons fst_run_Cons drawn_append a b)
qed

lemma run_append:
  "run config (evs @ evs') s =
     (fst (run config evs' (fst (run config evs s))),
      snd (run config evs s) @ snd (run config evs' (fst (run config evs s))))"
  by (induction evs arbitrary: s) (simp_all split: prod.splits)

lemma send_connected:
  "connected s \<Longrightarrow>
   fst (send config action params sendThrows s) = Call (echoCounter s)
   \<and> echoCounter (fst (snd (send config action params sendThrows s)))
       = js_increment (echoCounter s)"
  by (simp add: send_def Let_def split: option.splits)

lemma send_not_connected:
  "\<not> connected s \<Longrightarrow> send config action params sendThrows s = (Refused notConnectedError, s, [])"
  by (simp add: send_def)

lemma step_keeps_pending:
  "\<not> settles e ev \<Longrightarrow> e < echoCounter s \<Longrightarrow>
   pendingRequests (fst (step config ev s)) e = pendingRequests s e"
proof (cases ev)
  case (CallSend action params sendThrows)
  assume "e < echoCounter s"
  with CallSend show ?thesis
    by (simp add: send_def Let_def split: option.splits)
next
  case (SocketMessage f)
  assume "\<not> settles e ev"
  with SocketMessage show ?thesis
    by (cases f) (auto simp: handleWebSocketMessage_def split: option.splits)
next
  case (TimerRequestTimeout k action)
  assume "\<not> settles e ev"
  with TimerRequestTimeout show ?thesis
    by (simp add: requestTimeout_def)
next
  case CallDisconnect
  assume "\<not> settles e ev"
  with CallDisconnect show ?thesis by simp
qed (simp_all add: connectWebSocket_def onOpen_def onClose_def reconnect_def
      onError_def reconnectTimer_def reconnectFailed_def httpListening_def)

lemma run_keeps_pending:
  "\<forall>ev \<in> set evs. \<not> settles e ev \<Longrightarrow> e < echoCounter s \<Longrightarrow>
   pendingRequests (fst (run config evs s)) e = pendingRequests s e"
proof (induction evs arbitrary: s)
  case Nil
  show ?case by simp
next
  case (Cons ev evs)
  have lt: "e < echoCounter (fst (step config ev s))"
    using step_counter_mono[of s config ev] Cons.prems(2) by simp
  have "pendingRequests (fst (run config evs (fst (step config ev s)))) e
        = pendingRequests (fst (step config ev s)) e"
    using Cons.IH[OF _ lt] Cons.prems(1) by simp
  also have "\<dots> = pendingRequests s e"
    using step_keeps_pending[of e ev s config] Cons.prems by simp
  finally show ?case by (simp only: fst_run_Cons)
qed

lemma step_keeps_absent:
  "pendingRequests s e = None \<Longrightarrow> e < echoCounter s \<Longrightarrow>
   pendingRequests (fst (step config ev s)) e = None"
proof (cases ev)
  case (CallSend action params sendThrows)
  assume "pendingRequests s e = None" "e < echoCounter s"
  with CallSend show ?thesis
    by (simp add: send_def Let_def split: option.splits)
next
  case (SocketMessage f)
  assume "pendingRequests s e = None"
  with SocketMessage show ?thesis
    by (cases f) (auto simp: handleWebSocketMessage_def split: option.splits)
next
  case (TimerRequestTimeout k action)
  assume "pendingRequests s e = None"
  with TimerRequestTimeout show ?thesis
    by (simp add: requestTimeout_def)
qed (simp_all add: connectWebSocket_def onOpen_def onClose_def reconnect_def disconnect_def
      onError_def reconnectTimer_def reconnectFailed_def httpListening_def)

lemma run_keeps_absent:
  "pendingRequests s e = None \<Longrightarrow> e < echoCounter s \<Longrightarrow>
   pendingRequests (fst (run config evs s)) e = None"
proof (induction evs arbitrary: s)
  case Nil
  then show ?case by simp
next
  case (Cons ev evs)
  have lt: "e < echoCounter (fst (step config ev s))"
    using step_counter_mono[of s config ev] Cons.prems(2) by simp
  have "pendingRequests (fst (step config ev s)) e = None"
    using Cons.prems by (rule step_keeps_absent)
  then have "pendingRequests (fst (run config evs (fst (step config ev s)))) e = None"
    using lt by (rule Cons.IH)
  then show ?case by (simp only: fst_run_Cons)
qed

lemma response_unmatched:
  "echo payload \<noteq> JUndefined \<Longrightarrow>
   (\<forall>k. echo_key (echo payload) = Some k \<longrightarrow> pendingRequests s k = None) \<Longrightarrow>
   handleWebSocketMessage (Parsed payload) s = (s, [])"
  by (simp add: handleWebSocketMessage_def split: option.splits)

lemma echo_key_defined: "echo_key v = Some k \<Longrightarrow> v \<noteq> JUndefined"
  by (auto simp: echo_key_def)

text \<open>
  A call of \<^verbatim>\<open>send\<close> whose frame is written, on a connected adapter with a socket: it
  draws the counter's value and leaves the adapter connected; after \<open>n\<close> such calls the
  counter has gone up by \<open>n\<close>, but not beyond the limit.
\<close>

lemma step_send_written:
  "connected s \<Longrightarrow> ws s \<Longrightarrow>
   connected (fst (step config (CallSend action params None) s))
   \<and> ws (fst (step config (CallSend action params None) s))
   \<and> echoCounter (fst (step config (CallSend action params None) s))
       = js_increment (echoCounter s)
   \<and> drawn (snd (step config (CallSend action params None) s)) = [echoCounter s]"
  by (simp add: send_def Let_def)

lemma run_sends_written:
  "connected s \<Longrightarrow> ws s \<Longrightarrow> echoCounter s \<le> counter_limit \<Longrightarrow>
   connected (fst (run config (replicate n (CallSend action params None)) s))
   \<and> ws (fst (run config (replicate n (CallSend action params None)) s))
   \<and> echoCounter (fst (run config (replicate n (CallSend action params None)) s))
       = min (echoCounter s + n) counter_limit"
proof (induction n arbitrary: s)
  case 0
  then show ?case by simp
next
  case (Suc n)
  let ?s' = "fst (step config (CallSend action params None) s)"
  have st: "connected ?s'" "ws ?s'" "echoCounter ?s' = js_increment (echoCounter s)"
    using step_send_written[OF Suc.prems(1,2), of config action params] by simp_all
  have le: "echoCounter ?s' \<le> counter_limit"
    unfolding st(3) using Suc.prems(3) by (rule js_increment_bounded)
  have "min (js_increment (echoCounter s) + n) counter_limit
        = min (echoCounter s + Suc n) counter_limit"
    using Suc.prems(3) by (simp add: js_increment_def)
  then show ?case
    using Suc.IH[OF st(1,2) le] st(3)
    by (simp only: replicate_Suc fst_run_Cons)
qed

text \<open>
  C6, as the code has it: over any sequence of events (calls of \<^verbatim>\<open>send\<close>, \<^verbatim>\<open>disconnect\<close>,
  the socket closing and opening again, timers) from any state of the adapter, as long
  as the counter's value at the start and the number of calls of \<^verbatim>\<open>send\<close> together do
  not exceed \<open>2\<^sup>5\<^sup>3\<close>, the echoes drawn by the calls are the numbers from the counter's
  value at the start up to its value at the end, in order: strictly increasing, so no
  echo is drawn twice.  No event lowers the counter; \<^verbatim>\<open>disconnect\<close> and the reconnection
  leave it as it is.  A call of \<^verbatim>\<open>send\<close> on a connected adapter draws the counter's value
  and increments the counter; on an adapter that is not connected it is refused before
  an echo is drawn.
\<close>

theorem echo_ids_distinct_below_limit:
  assumes "echoCounter s + sends events \<le> counter_limit"
  shows "drawn (snd (run config events s))
       = [echoCounter s ..< echoCounter (fst (run config events s))]
   \<and> sorted_wrt (<) (drawn (snd (run config events s)))
   \<and> distinct (drawn (snd (run config events s)))
   \<and> echoCounter s \<le> echoCounter (fst (run config events s))
   \<and> echoCounter (fst (step config CallDisconnect s)) = echoCounter s
   \<and> echoCounter (fst (step config SocketClose s)) = echoCounter s
   \<and> echoCounter (fst (step config SocketOpen s)) = echoCounter s
   \<and> echoCounter (fst (step config TimerReconnect s)) = echoCounter s
   \<and> (connected s \<longrightarrow>
        fst (send config action params sendThrows s) = Call (echoCounter s)
        \<and> echoCounter (fst (snd (send config action params sendThrows s)))
            = js_increment (echoCounter s))
   \<and> (\<not> connected s \<longrightarrow>
        send config action params sendThrows s = (Refused notConnectedError, s, []))"
proof -
  have d: "drawn (snd (run config events s))
           = [echoCounter s ..< echoCounter (fst (run config events s))]"
    using assms by (rule run_drawn)
  have "sorted_wrt (<) [echoCounter s ..< echoCounter (fst (run config events s))]"
    by (rule sorted_wrt_upt)
  moreover have "distinct [echoCounter s ..< echoCounter (fst (run config events s))]"
    by (rule distinct_upt)
  ultimately show ?thesis
    using d run_counter_mono[of s config events]
      send_connected[of s config action params sendThrows]
      send_not_connected[of s config action params sendThrows]
    by (simp add: disconnect_def onClose_def reconnect_def onOpen_def reconnectTimer_def
        connectWebSocket_def)
qed

theorem echo_ids_distinct_below_limit_witness:
  "echoCounter new_adapter
     + sends [CallConnectWebSocket, SocketOpen, CallSend (lit ''get_status'') JNull None,
         CallDisconnect, SocketClose, TimerReconnect, SocketOpen,
         CallSend (lit ''get_status'') JNull None, CallSend (lit ''get_status'') JNull None]
     \<le> counter_limit
   \<and> drawn (snd (run example_config
      [CallConnectWebSocket, SocketOpen, CallSend (lit ''get_status'') JNull None,
       CallDisconnect, SocketClose, TimerReconnect, SocketOpen,
       CallSend (lit ''get_status'') JNull None, CallSend (lit ''get_status'') JNull None]
      new_adapter)) = [0, 1, 2]
   \<and> connected (new_adapter\<lparr>connected := True\<rparr>)
   \<and> fst (send example_config (lit ''get_status'') JNull None (new_adapter\<lparr>connected := True\<rparr>))
       = Call 0
   \<and> \<not> connected new_adapter
   \<and> fst (send example_config (lit ''get_status'') JNull None new_adapter)
       = Refused notConnectedError"
proof -
  have bound: "echoCounter new_adapter
     + sends [CallConnectWebSocket, SocketOpen, CallSend (lit ''get_status'') JNull None,
         CallDisconnect, SocketClose, TimerReconnect, SocketOpen,
         CallSend (lit ''get_status'') JNull None, CallSend (lit ''get_status'') JNull None]
     \<le> counter_limit"
    by (simp add: new_adapter_def counter_limit_def)
  have empty: "echoCounter (new_adapter\<lparr>connected := True\<rparr>) + sends [] \<le> counter_limit"
    "echoCounter new_adapter + sends [] \<le> counter_limit"
    by (simp_all add: new_adapter_def counter_limit_def)
  show ?thesis
    using bound
      echo_ids_distinct_below_limit[OF bound, of example_config]
      echo_ids_distinct_below_limit[OF empty(1), of example_config "lit ''get_status''" JNull None]
      echo_ids_distinct_below_limit[OF empty(2), of example_config "lit ''get_status''" JNull None]
    by (simp add: new_adapter_def send_def Let_def connectWebSocket_def onOpen_def
        disconnect_def onClose_def reconnect_def reconnectTimer_def js_increment_def
        counter_limit_def)
qed

text \<open>
  The claim C6 as it was stated (for every sequence of calls, no echo is ever reused)
  fails at the limit of the counter: after \<open>2\<^sup>5\<^sup>3\<close> calls of \<^verbatim>\<open>send\<close> on a connection the
  counter holds \<open>2\<^sup>5\<^sup>3\<close>, the increment leaves it there, and the next two calls both draw
  \<open>2\<^sup>5\<^sup>3\<close>.
\<close>

theorem echo_reused_at_limit_counterexample:
  "\<not> distinct (drawn (snd (run example_config
      ([CallConnectWebSocket, SocketOpen]
       @ replicate counter_limit (CallSend (lit ''get_status'') JNull None)
       @ [CallSend (lit ''get_status'') JNull None, CallSend (lit ''get_status'') JNull None])
      new_adapter)))"
proof -
  define snd1 where "snd1 = CallSend (lit ''get_status'') JNull None"
  define s0 where "s0 = fst (run example_config [CallConnectWebSocket, SocketOpen] new_adapter)"
  define s1 where "s1 = fst (run example_config (replicate counter_limit snd1) s0)"
  define s2 where "s2 = fst (step example_config snd1 s1)"
  have s0: "connected s0" "ws s0" "echoCounter s0 = 0"
    by (simp_all add: s0_def new_adapter_def connectWebSocket_def onOpen_def)
  have s0le: "echoCounter s0 \<le> counter_limit"
    by (simp add: s0(3))
  have s1: "connected s1" "ws s1" "echoCounter s1 = counter_limit"
    using run_sends_written[OF s0(1,2) s0le, of example_config counter_limit
        "lit ''get_status''" JNull, folded snd1_def s1_def]
    by (simp_all add: s0(3))
  have first: "drawn (snd (step example_config snd1 s1)) = [counter_limit]"
    and s2: "connected s2" "ws s2" "echoCounter s2 = counter_limit"
    using step_send_written[OF s1(1,2), of example_config "lit ''get_status''" JNull,
        folded snd1_def s2_def]
    by (simp_all add: s1(3) js_increment_limit)
  have second: "drawn (snd (step example_config snd1 s2)) = [counter_limit]"
    using step_send_written[OF s2(1,2), of example_config "lit ''get_status''" JNull,
        folded snd1_def]
    by (simp add: s2(3))
  have "snd (run example_config [snd1, snd1] s1)
      = snd (step example_config snd1 s1) @ snd (step example_config snd1 s2) @ []"
    by (simp only: snd_run_Cons fst_run_Cons s2_def run.simps(1) snd_conv)
  then have last: "drawn (snd (run example_config [snd1, snd1] s1))
      = [counter_limit, counter_limit]"
    by (simp add: drawn_append first second)
  have whole: "snd (run example_config
      ([CallConnectWebSocket, SocketOpen] @ replicate counter_limit snd1 @ [snd1, snd1])
      new_adapter)
    = snd (run example_config [CallConnectWebSocket, SocketOpen] new_adapter)
      @ snd (run example_config (replicate counter_limit snd1) s0)
      @ snd (run example_config [snd1, snd1] s1)"
    unfolding s1_def s0_def by (simp only: run_append snd_conv fst_conv)
  have "\<not> distinct (drawn (snd (run example_config
      ([CallConnectWebSocket, SocketOpen] @ replicate counter_limit snd1 @ [snd1, snd1])
      new_adapter)))"
    by (simp only: whole drawn_append last distinct_append) simp
  then show ?thesis
    unfolding snd1_def .
qed

text \<open>
  C3: the \<^verbatim>\<open>close\<close> handler of the socket sets \<^verbatim>\<open>connected\<close> to \<^verbatim>\<open>false\<close> and sets the
  reconnection timer; it leaves \<^verbatim>\<open>pendingRequests\<close> as it is.  After a call of \<^verbatim>\<open>send\<close>
  on a fresh connection and an unexpected close, the call with echo \<^verbatim>\<open>0\<close> is still
  pending; it is still pending when the reconnection has succeeded, and a response with
  echo \<^verbatim>\<open>0\<close> that arrives on the new connection resolves it.  (Only \<^verbatim>\<open>disconnect\<close>
  clears the table.)
\<close>

theorem close_keeps_pending_calls:
  "pendingRequests (fst (step config SocketClose s)) = pendingRequests s
   \<and> connected (fst (step config SocketClose s)) = False
   \<and> snd (step config SocketClose s) = [SetTimeout Reconnect (reconnect_ms config)]
   \<and> connected (fst (run example_config
        [CallConnectWebSocket, SocketOpen, CallSend (lit ''get_status'') JNull None,
         SocketClose] new_adapter)) = False
   \<and> pendingRequests (fst (run example_config
        [CallConnectWebSocket, SocketOpen, CallSend (lit ''get_status'') JNull None,
         SocketClose] new_adapter)) 0 = Some (Callbacks 0)
   \<and> connected (fst (run example_config
        [CallConnectWebSocket, SocketOpen, CallSend (lit ''get_status'') JNull None,
         SocketClose, TimerReconnect, SocketOpen] new_adapter)) = True
   \<and> pendingRequests (fst (run example_config
        [CallConnectWebSocket, SocketOpen, CallSend (lit ''get_status'') JNull None,
         SocketClose, TimerReconnect, SocketOpen] new_adapter)) 0 = Some (Callbacks 0)
   \<and> snd (run example_config
        [CallConnectWebSocket, SocketOpen, CallSend (lit ''get_status'') JNull None,
         SocketClose, TimerReconnect, SocketOpen, SocketMessage (Parsed (response 0))]
        new_adapter) =
       [NewWebSocket, ConnectResolved, SendReturns (Call 0),
        WsSend (lit ''get_status'') JNull 0,
        SetTimeout (RequestTimeout 0 (lit ''get_status'')) 30000,
        SetTimeout Reconnect 5000, NewWebSocket, ConnectResolved,
        Resolved (Callbacks 0) JNull]"
  by (simp add: new_adapter_def send_def Let_def connectWebSocket_def onOpen_def
      onClose_def reconnect_def reconnectTimer_def example_config_def timeout_ms_def
      reconnect_ms_def handleWebSocketMessage_def response_def echo_key_def
      js_increment_def counter_limit_def)

text \<open>
  C5, as the code has it: let \<^verbatim>\<open>send\<close> be called on a connected adapter whose counter
  is below its limit \<open>2\<^sup>5\<^sup>3\<close> and write its frame, drawing the echo \<open>e\<close>, and let no event
  before the timeout settle that call: no response frame with echo \<open>e\<close>, and no call of
  \<^verbatim>\<open>disconnect\<close>.  Then the call is still
  pending when its timer fires, the timer removes the entry and rejects the call with
  the timeout error, and a response with echo \<open>e\<close> that arrives at any later time is
  dropped: the adapter is left as it is, with no effect.  In any state, a response
  frame whose echo matches no pending entry is dropped in that way.
\<close>

theorem timeout_rejects_pending_call:
  assumes "connected s" and "ws s"
    and "\<forall>ev \<in> set events. \<not> settles (echoCounter s) ev"
    and "echoCounter s < counter_limit"
  shows "fst (send config action params None s) = Call (echoCounter s)
    \<and> snd (snd (send config action params None s)) =
        [WsSend action params (echoCounter s),
         SetTimeout (RequestTimeout (echoCounter s) action) (timeout_ms config)]
    \<and> (let waiting = fst (run config events (fst (snd (send config action params None s))));
            expired = fst (requestTimeout (echoCounter s) action waiting)
        in pendingRequests waiting (echoCounter s) = Some (Callbacks (echoCounter s))
           \<and> requestTimeout (echoCounter s) action waiting =
               (waiting\<lparr>pendingRequests := (pendingRequests waiting)(echoCounter s := None)\<rparr>,
                [Rejected (Callbacks (echoCounter s)) (timeoutError action)])
           \<and> (\<forall>later payload.
                 echo_key (echo payload) = Some (echoCounter s) \<longrightarrow>
                 handleWebSocketMessage (Parsed payload) (fst (run config later expired)) =
                   (fst (run config later expired), [])))
    \<and> (\<forall>t payload.
          echo payload \<noteq> JUndefined
          \<and> (\<forall>k. echo_key (echo payload) = Some k \<longrightarrow> pendingRequests t k = None) \<longrightarrow>
          handleWebSocketMessage (Parsed payload) t = (t, []))"
proof -
  define e where "e = echoCounter s"
  define sent where "sent = fst (snd (send config action params None s))"
  define waiting where "waiting = fst (run config events sent)"
  define expired where "expired = fst (requestTimeout e action waiting)"
  have sent: "pendingRequests sent e = Some (Callbacks e)" "echoCounter sent = e + 1"
    using assms(1,2,4) by (simp_all add: sent_def e_def send_def Let_def js_increment_below)
  have r: "fst (send config action params None s) = Call e"
    "snd (snd (send config action params None s)) =
        [WsSend action params e, SetTimeout (RequestTimeout e action) (timeout_ms config)]"
    using assms(1,2) by (simp_all add: e_def send_def Let_def)
  have w: "pendingRequests waiting e = Some (Callbacks e)"
    using run_keeps_pending[of events e sent config] assms(3) sent
    by (simp add: waiting_def e_def)
  have wc: "e < echoCounter waiting"
    using run_counter_mono[of sent config events] sent(2) by (simp add: waiting_def)
  have t: "requestTimeout e action waiting =
      (waiting\<lparr>pendingRequests := (pendingRequests waiting)(e := None)\<rparr>,
       [Rejected (Callbacks e) (timeoutError action)])"
    using w by (simp add: requestTimeout_def)
  have x: "pendingRequests expired e = None" "e < echoCounter expired"
    using wc by (simp_all add: expired_def t)
  have late: "handleWebSocketMessage (Parsed payload) (fst (run config later expired)) =
                   (fst (run config later expired), [])"
    if "echo_key (echo payload) = Some e" for later payload
  proof (rule response_unmatched)
    show "echo payload \<noteq> JUndefined"
      using that by (rule echo_key_defined)
    show "\<forall>k. echo_key (echo payload) = Some k \<longrightarrow>
              pendingRequests (fst (run config later expired)) k = None"
      using that run_keeps_absent[OF x, of config later] by simp
  qed
  have unmatched: "\<forall>t payload.
          echo payload \<noteq> JUndefined
          \<and> (\<forall>k. echo_key (echo payload) = Some k \<longrightarrow> pendingRequests t k = None) \<longrightarrow>
          handleWebSocketMessage (Parsed payload) t = (t, [])"
    using response_unmatched by blast
  have late': "\<forall>later payload.
      echo_key (echo payload) = Some e \<longrightarrow>
      handleWebSocketMessage (Parsed payload) (fst (run config later expired)) =
        (fst (run config later expired), [])"
    using late by blast
  show ?thesis
    using r w t late' unmatched
    unfolding Let_def e_def sent_def waiting_def expired_def
    by (intro conjI) assumption+
qed

theorem timeout_rejects_pending_call_witness:
  "connected (new_adapter\<lparr>ws := True, connected := True\<rparr>)
   \<and> ws (new_adapter\<lparr>ws := True, connected := True\<rparr>)
   \<and> \<not> settles 0 (CallSend (lit ''get_status'') JNull None)
   \<and> \<not> settles 0 (SocketMessage (Parsed (response 1)))
   \<and> \<not> settles 0 SocketClose
   \<and> echoCounter (new_adapter\<lparr>ws := True, connected := True\<rparr>) < counter_limit
   \<and> snd (requestTimeout 0 (lit ''send_group_msg'')
       (fst (run example_config
          [CallSend (lit ''get_status'') JNull None, SocketMessage (Parsed (response 1)),
           SocketClose]
          (fst (snd (send example_config (lit ''send_group_msg'') JNull None
             (new_adapter\<lparr>ws := True, connected := True\<rparr>)))))))
     = [Rejected (Callbacks 0) (timeoutError (lit ''send_group_msg''))]
   \<and> handleWebSocketMessage (Parsed (response 7)) new_adapter = (new_adapter, [])"
  using timeout_rejects_pending_call[of "new_adapter\<lparr>ws := True, connected := True\<rparr>"
      "[CallSend (lit ''get_status'') JNull None, SocketMessage (Parsed (response 1)),
        SocketClose]"
      example_config "lit ''send_group_msg''" JNull]
  by (simp add: new_adapter_def Let_def response_def echo_key_def counter_limit_def)

lemma step_send_written_effects:
  "connected s \<Longrightarrow> ws s \<Longrightarrow>
   snd (step config (CallSend action params None) s) =
     [SendReturns (Call (echoCounter s)), WsSend action params (echoCounter s),
      SetTimeout (RequestTimeout (echoCounter s) action) (timeout_ms config)]"
  by (simp add: send_def Let_def)

lemma run_sends_written_no_reject:
  "connected s \<Longrightarrow> ws s \<Longrightarrow>
   Rejected c v \<notin> set (snd (run config (replicate n (CallSend action params None)) s))"
proof (induction n arbitrary: s)
  case 0
  show ?case by simp
next
  case (Suc n)
  let ?s' = "fst (step config (CallSend action params None) s)"
  have st: "connected ?s'" "ws ?s'"
    using step_send_written[OF Suc.prems, of config action params] by simp_all
  have "Rejected c v \<notin> set (snd (step config (CallSend action params None) s))"
    by (simp only: step_send_written_effects[OF Suc.prems]) simp
  moreover have "Rejected c v \<notin> set (snd (run config (replicate n (CallSend action params None)) ?s'))"
    using st by (rule Suc.IH)
  ultimately show ?case
    by (simp only: replicate_Suc snd_run_Cons set_append Un_iff) simp
qed

text \<open>
  The claim C5 as it was stated (if no response with a matching echo arrives within the
  timeout, \<^verbatim>\<open>send\<close> rejects with a timeout error) fails when \<^verbatim>\<open>disconnect\<close> is called
  while the call is pending: \<^verbatim>\<open>disconnect\<close> clears the table without settling the call,
  so the timer finds no entry and rejects nothing.  It also fails at the limit of the
  counter: after \<open>2\<^sup>5\<^sup>3\<close> calls, a call draws the echo \<open>2\<^sup>5\<^sup>3\<close> and writes its frame, the
  next call draws the same echo and, when writing its frame fails, removes the entry
  under it; the timer of the first call then finds no entry and rejects nothing.
\<close>

theorem timeout_without_rejection_counterexample:
  "snd (run example_config
      [CallConnectWebSocket, SocketOpen, CallSend (lit ''get_status'') JNull None,
       CallDisconnect, TimerRequestTimeout 0 (lit ''get_status'')] new_adapter) =
     [NewWebSocket, ConnectResolved, SendReturns (Call 0),
      WsSend (lit ''get_status'') JNull 0,
      SetTimeout (RequestTimeout 0 (lit ''get_status'')) 30000, WsCloseCall]
   \<and> Rejected (Callbacks 0) (timeoutError (lit ''get_status''))
       \<notin> set (snd (run example_config
            [CallConnectWebSocket, SocketOpen, CallSend (lit ''get_status'') JNull None,
             CallDisconnect, TimerRequestTimeout 0 (lit ''get_status'')] new_adapter))
   \<and> Rejected (Callbacks counter_limit) (timeoutError (lit ''get_status''))
       \<notin> set (snd (run example_config
            ([CallConnectWebSocket, SocketOpen]
             @ replicate counter_limit (CallSend (lit ''get_status'') JNull None)
             @ [CallSend (lit ''get_status'') JNull None,
                CallSend (lit ''get_version'') JNull (Some (JError (lit ''closed''))),
                TimerRequestTimeout counter_limit (lit ''get_status'')])
            new_adapter))"
proof -
  define snd1 where "snd1 = CallSend (lit ''get_status'') JNull None"
  define snd2 where "snd2 = CallSend (lit ''get_version'') JNull (Some (JError (lit ''closed'')))"
  define tmo where "tmo = TimerRequestTimeout counter_limit (lit ''get_status'')"
  define s0 where "s0 = fst (run example_config [CallConnectWebSocket, SocketOpen] new_adapter)"
  define s1 where "s1 = fst (run example_config (replicate counter_limit snd1) s0)"
  define s2 where "s2 = fst (step example_config snd1 s1)"
  define s3 where "s3 = fst (step example_config snd2 s2)"
  have part1: "snd (run example_config
      [CallConnectWebSocket, SocketOpen, CallSend (lit ''get_status'') JNull None,
       CallDisconnect, TimerRequestTimeout 0 (lit ''get_status'')] new_adapter) =
     [NewWebSocket, ConnectResolved, SendReturns (Call 0),
      WsSend (lit ''get_status'') JNull 0,
      SetTimeout (RequestTimeout 0 (lit ''get_status'')) 30000, WsCloseCall]"
    by (simp add: new_adapter_def send_def Let_def connectWebSocket_def onOpen_def
        disconnect_def requestTimeout_def example_config_def timeout_ms_def
        js_increment_def counter_limit_def)
  have part2: "Rejected (Callbacks 0) (timeoutError (lit ''get_status''))
       \<notin> set (snd (run example_config
            [CallConnectWebSocket, SocketOpen, CallSend (lit ''get_status'') JNull None,
             CallDisconnect, TimerRequestTimeout 0 (lit ''get_status'')] new_adapter))"
    by (simp only: part1) simp
  have s0: "connected s0" "ws s0" "echoCounter s0 = 0"
    by (simp_all add: s0_def new_adapter_def connectWebSocket_def onOpen_def)
  have e0: "snd (run example_config [CallConnectWebSocket, SocketOpen] new_adapter)
      = [NewWebSocket, ConnectResolved]"
    by (simp add: new_adapter_def connectWebSocket_def onOpen_def)
  have s0le: "echoCounter s0 \<le> counter_limit"
    by (simp add: s0(3))
  have s1: "connected s1" "ws s1" "echoCounter s1 = counter_limit"
    using run_sends_written[OF s0(1,2) s0le, of example_config counter_limit
        "lit ''get_status''" JNull, folded snd1_def s1_def]
    by (simp_all add: s0(3))
  have e1: "Rejected (Callbacks counter_limit) (timeoutError (lit ''get_status''))
      \<notin> set (snd (run example_config (replicate counter_limit snd1) s0))"
    unfolding snd1_def using s0(1,2) by (rule run_sends_written_no_reject)
  have s2: "connected s2" "ws s2" "echoCounter s2 = counter_limit"
    using step_send_written[OF s1(1,2), of example_config "lit ''get_status''" JNull,
        folded snd1_def s2_def]
    by (simp_all add: s1(3) js_increment_limit)
  have e2: "snd (step example_config snd1 s1) =
     [SendReturns (Call counter_limit), WsSend (lit ''get_status'') JNull counter_limit,
      SetTimeout (RequestTimeout counter_limit (lit ''get_status'')) (timeout_ms example_config)]"
    using step_send_written_effects[OF s1(1,2), of example_config "lit ''get_status''" JNull,
        folded snd1_def]
    by (simp add: s1(3))
  have e3: "snd (step example_config snd2 s2) =
     [SendReturns (Call counter_limit), Rejected (Callbacks counter_limit) (JError (lit ''closed''))]"
    and s3: "pendingRequests s3 counter_limit = None"
    using s2 by (simp_all add: s3_def snd2_def send_def Let_def)
  have e4: "snd (step example_config tmo s3) = []"
    using s3 by (simp add: tmo_def requestTimeout_def)
  have last: "snd (run example_config [snd1, snd2, tmo] s1)
      = snd (step example_config snd1 s1) @ snd (step example_config snd2 s2)
        @ snd (step example_config tmo s3) @ []"
    by (simp only: snd_run_Cons fst_run_Cons s2_def s3_def run.simps(1) snd_conv)
  have differ: "timeoutError (lit ''get_status'') \<noteq> JError (lit ''closed'')"
    by (simp add: timeoutError_def lit_def)
  have whole: "snd (run example_config
      ([CallConnectWebSocket, SocketOpen] @ replicate counter_limit snd1 @ [snd1, snd2, tmo])
      new_adapter)
    = snd (run example_config [CallConnectWebSocket, SocketOpen] new_adapter)
      @ snd (run example_config (replicate counter_limit snd1) s0)
      @ snd (run example_config [snd1, snd2, tmo] s1)"
    unfolding s1_def s0_def by (simp only: run_append snd_conv fst_conv)
  have part3: "Rejected (Callbacks counter_limit) (timeoutError (lit ''get_status''))
       \<notin> set (snd (run example_config
            ([CallConnectWebSocket, SocketOpen] @ replicate counter_limit snd1
             @ [snd1, snd2, tmo]) new_adapter))"
    using e1 differ
    by (simp only: whole last e0 e2 e3 e4 set_append Un_iff) simp
  show ?thesis
    using part1 part2 part3 unfolding snd1_def snd2_def tmo_def
    by (intro conjI) assumption+
qed

end
